theory Spec2Isabelle
  imports Complex_Main
begin

section \<open>JavaScript strings\<close>

text \<open>
  A JavaScript string is a sequence of UTF-16 code units, and \<open>length\<close>, \<open>slice\<close> and
  the regular expressions of \<^verbatim>\<open>utils.js\<close> (none has the \<open>u\<close> flag) count code units.
  A code unit is modelled by its number. A string field that may be \<open>undefined\<close> is
  modelled by the empty string where the code only tests it for truthiness
  (\<^verbatim>\<open>x || default\<close>, \<^verbatim>\<open>String(x ?? '')\<close>).
\<close>

type_synonym jschar = nat
type_synonym jsstring = "jschar list"

definition js :: "string \<Rightarrow> jsstring" where
  "js s = map of_char s"

definition dot :: jschar where "dot = 46"
definition dash :: jschar where "dash = 45"
definition blank :: jschar where "blank = 32"

text \<open>\<^verbatim>\<open>x || d\<close> on strings: the empty string is falsy.\<close>

definition orElse :: "jsstring \<Rightarrow> jsstring \<Rightarrow> jsstring" where
  "orElse x d = (if x = [] then d else x)"

text \<open>\<^verbatim>\<open>String(n)\<close> for a non-negative integer: its decimal digits.\<close>

fun string_of_nat :: "nat \<Rightarrow> jsstring" where
  "string_of_nat n =
     (if n < 10 then [48 + n] else string_of_nat (n div 10) @ [48 + n mod 10])"

declare string_of_nat.simps [simp del]

subsection \<open>sanitizeFilename\<close>

text \<open>The class \<^verbatim>\<open>[\\/:*?"<>|]\<close>.\<close>

definition forbidden :: "jschar \<Rightarrow> bool" where
  "forbidden c \<longleftrightarrow> c \<in> {92, 47, 58, 42, 63, 34, 60, 62, 124}"

text \<open>
  The class \<^verbatim>\<open>\s\<close> of ECMAScript (white space and line terminators), which is also what
  \<^verbatim>\<open>trim\<close> removes.
\<close>

definition is_space :: "jschar \<Rightarrow> bool" where
  "is_space c \<longleftrightarrow>
     c \<in> {9, 10, 11, 12, 13, 32, 160, 5760, 8232, 8233, 8239, 8287, 12288, 65279}
     \<or> (8192 \<le> c \<and> c \<le> 8202)"

text \<open>\<^verbatim>\<open>replace(/\s+/g, ' ')\<close>: every maximal run of white space becomes one blank.\<close>

function collapse_ws :: "jsstring \<Rightarrow> jsstring" where
  "collapse_ws [] = []"
| "collapse_ws (c # cs) =
     (if is_space c then blank # collapse_ws (dropWhile is_space cs)
      else c # collapse_ws cs)"
  by pat_completeness auto
termination
  by (relation "measure length") (auto simp: le_imp_less_Suc length_dropWhile_le)

text \<open>Removing the longest prefix and the longest suffix of characters in a class.\<close>

definition strip_both :: "(jschar \<Rightarrow> bool) \<Rightarrow> jsstring \<Rightarrow> jsstring" where
  "strip_both P s = rev (dropWhile P (rev (dropWhile P s)))"

definition trim :: "jsstring \<Rightarrow> jsstring" where
  "trim s = strip_both is_space s"

text \<open>
  \<^verbatim>\<open>/^(CON|PRN|AUX|NUL|COM[1-9]|LPT[1-9])$/i\<close>. Without the \<open>u\<close> flag, a
  case-insensitive match compares upper-cased code units and never maps a non-ASCII
  unit to an ASCII one, so only the ASCII letters fold.
\<close>

definition upper :: "jschar \<Rightarrow> jschar" where
  "upper c = (if 97 \<le> c \<and> c \<le> 122 then c - 32 else c)"

definition reserved :: "jsstring \<Rightarrow> bool" where
  "reserved s \<longleftrightarrow>
     (let u = map upper s in
        u \<in> set (map js [''CON'', ''PRN'', ''AUX'', ''NUL''])
        \<or> (length u = 4 \<and> take 3 u \<in> set (map js [''COM'', ''LPT''])
            \<and> 49 \<le> u ! 3 \<and> u ! 3 \<le> 57))"

definition sanitizeFilename :: "jsstring \<Rightarrow> nat \<Rightarrow> jsstring" where
  "sanitizeFilename name maxLength =
     (let safe = map (\<lambda>c. if forbidden c then dash else c) name;
          safe = trim (collapse_ws safe);
          safe = strip_both (\<lambda>c. is_space c \<or> c = dot) safe;
          safe = (if length safe = 0 then js ''image'' else safe);
          safe = (if reserved safe then safe @ js ''_'' else safe);
          safe = (if length safe > maxLength then take maxLength safe else safe)
      in safe)"

subsection \<open>makeUniqueName\<close>

text \<open>
  A \<^verbatim>\<open>Set\<close> of strings is a list without repetition in insertion order; \<open>add\<close>
  appends a new element and leaves the set alone otherwise.
\<close>

definition set_add :: "'a \<Rightarrow> 'a list \<Rightarrow> 'a list" where
  "set_add x xs = (if x \<in> set xs then xs else xs @ [x])"

definition suffixed :: "jsstring \<Rightarrow> nat \<Rightarrow> jsstring" where
  "suffixed baseName counter = baseName @ dash # string_of_nat counter"

lemma string_of_nat_length: "0 < length (string_of_nat n)"
  by (subst string_of_nat.simps) simp

lemma string_of_nat_inj: "string_of_nat m = string_of_nat n \<Longrightarrow> m = n"
proof (induction m arbitrary: n rule: string_of_nat.induct)
  case (1 m)
  show ?case
  proof (cases "m < 10")
    case small: True
    show ?thesis
    proof (cases "n < 10")
      case True
      with small "1.prems" show ?thesis
        by (simp add: string_of_nat.simps [of m] string_of_nat.simps [of n])
    next
      case False
      with small "1.prems" string_of_nat_length [of "n div 10"] show ?thesis
        by (simp add: string_of_nat.simps [of m] string_of_nat.simps [of n])
    qed
  next
    case big: False
    show ?thesis
    proof (cases "n < 10")
      case True
      with big "1.prems" string_of_nat_length [of "m div 10"] show ?thesis
        by (simp add: string_of_nat.simps [of m] string_of_nat.simps [of n])
    next
      case False
      with big "1.prems" have "string_of_nat (m div 10) = string_of_nat (n div 10)"
        and md: "m mod 10 = n mod 10"
        by (simp_all add: string_of_nat.simps [of m] string_of_nat.simps [of n])
      with big "1.IH" have "m div 10 = n div 10" by simp
      with md show ?thesis by (metis div_mult_mod_eq)
    qed
  qed
qed

lemma suffixed_inj: "suffixed b j = suffixed b k \<Longrightarrow> j = k"
  by (simp add: suffixed_def string_of_nat_inj)

text \<open>The names \<open>b-k\<close>, \<open>b-(k+1)\<close>, \<open>\<dots>\<close> that are taken.\<close>

definition taken_from :: "jsstring \<Rightarrow> jsstring list \<Rightarrow> nat \<Rightarrow> jsstring set" where
  "taken_from b u k = {x \<in> set u. \<exists>j\<ge>k. x = suffixed b j}"

lemma taken_from_step:
  "card (taken_from b u k) =
     card (taken_from b u (Suc k)) + (if suffixed b k \<in> set u then 1 else 0)"
proof -
  have fin: "finite (taken_from b u (Suc k))"
    by (simp add: taken_from_def)
  have notin: "suffixed b k \<notin> taken_from b u (Suc k)"
    by (auto simp: taken_from_def dest: suffixed_inj)
  show ?thesis
  proof (cases "suffixed b k \<in> set u")
    case True
    have "taken_from b u k = insert (suffixed b k) (taken_from b u (Suc k))"
      using True by (auto simp: taken_from_def le_Suc_eq Suc_le_eq order_less_le)
    with fin notin True show ?thesis by simp
  next
    case False
    have "taken_from b u k = taken_from b u (Suc k)"
      using False by (auto simp: taken_from_def Suc_le_eq order_less_le)
    with False show ?thesis by simp
  qed
qed

text \<open>
  The \<^verbatim>\<open>while\<close> loop of \<^verbatim>\<open>makeUniqueName\<close>, on its two variables. It ends
  because the set is finite and the candidates \<open>b-2\<close>, \<open>b-3\<close>, \<open>\<dots>\<close> are all different.
\<close>

function uniqueLoop :: "jsstring \<Rightarrow> jsstring list \<Rightarrow> jsstring \<Rightarrow> nat \<Rightarrow> jsstring" where
  "uniqueLoop baseName usedNames candidate counter =
     (if candidate \<in> set usedNames
      then uniqueLoop baseName usedNames (suffixed baseName counter) (Suc counter)
      else candidate)"
  by pat_completeness auto
termination
proof (relation "measure (\<lambda>(b, u, c, k).
         card (taken_from b u k) + (if c \<in> set u then 1 else 0))")
  show "wf (measure (\<lambda>(b, u, c, k).
         card (taken_from b u k) + (if c \<in> set u then 1 else 0)))"
    by simp
next
  fix baseName :: jsstring and usedNames :: "jsstring list"
    and candidate :: jsstring and counter :: nat
  assume "candidate \<in> set usedNames"
  then show "((baseName, usedNames, suffixed baseName counter, Suc counter),
              (baseName, usedNames, candidate, counter))
             \<in> measure (\<lambda>(b, u, c, k).
                 card (taken_from b u k) + (if c \<in> set u then 1 else 0))"
    using taken_from_step [of baseName usedNames counter] by simp
qed

declare uniqueLoop.simps [simp del]

definition makeUniqueName :: "jsstring \<Rightarrow> jsstring list \<Rightarrow> jsstring \<times> jsstring list" where
  "makeUniqueName baseName usedNames =
     (let candidate = uniqueLoop baseName usedNames baseName 2
      in (candidate, set_add candidate usedNames))"

section \<open>JavaScript numbers\<close>

text \<open>
  A JavaScript number is a double. The pipeline computes with small integers (pixel
  counts and channel values), one ratio of two of them and a sharpening intensity; the
  model computes with exact real arithmetic in place of rounded doubles and keeps the
  non-finite values, which is where a division by zero goes in JavaScript (in HOL,
  \<open>x / 0 = 0\<close>). The two zeros are identified: they differ only as divisors, and every
  divisor in the code is \<open>2\<close> or a ratio of two non-negative sizes. A double that was
  rounded on the way can fall on the other side of a half than the exact value, so
  \<^verbatim>\<open>Math.round\<close> of it can differ by one from the value computed here when the
  exact value lies halfway between two integers.
\<close>

datatype jsnum = Fin real | PosInf | NegInf | NaN

fun num_div :: "jsnum \<Rightarrow> jsnum \<Rightarrow> jsnum" where
  "num_div (Fin a) (Fin b) =
     (if b = 0 then (if a = 0 then NaN else if 0 < a then PosInf else NegInf)
      else Fin (a / b))"
| "num_div (Fin a) PosInf = Fin 0"
| "num_div (Fin a) NegInf = Fin 0"
| "num_div PosInf (Fin b) = (if 0 \<le> b then PosInf else NegInf)"
| "num_div NegInf (Fin b) = (if 0 \<le> b then NegInf else PosInf)"
| "num_div _ _ = NaN"

fun num_mul :: "jsnum \<Rightarrow> jsnum \<Rightarrow> jsnum" where
  "num_mul (Fin a) (Fin b) = Fin (a * b)"
| "num_mul (Fin a) PosInf = (if a = 0 then NaN else if 0 < a then PosInf else NegInf)"
| "num_mul (Fin a) NegInf = (if a = 0 then NaN else if 0 < a then NegInf else PosInf)"
| "num_mul PosInf (Fin b) = (if b = 0 then NaN else if 0 < b then PosInf else NegInf)"
| "num_mul NegInf (Fin b) = (if b = 0 then NaN else if 0 < b then NegInf else PosInf)"
| "num_mul PosInf PosInf = PosInf"
| "num_mul PosInf NegInf = NegInf"
| "num_mul NegInf PosInf = NegInf"
| "num_mul NegInf NegInf = PosInf"
| "num_mul _ _ = NaN"

fun num_sub :: "jsnum \<Rightarrow> jsnum \<Rightarrow> jsnum" where
  "num_sub (Fin a) (Fin b) = Fin (a - b)"
| "num_sub (Fin a) PosInf = NegInf"
| "num_sub (Fin a) NegInf = PosInf"
| "num_sub PosInf (Fin b) = PosInf"
| "num_sub NegInf (Fin b) = NegInf"
| "num_sub PosInf NegInf = PosInf"
| "num_sub NegInf PosInf = NegInf"
| "num_sub _ _ = NaN"

text \<open>\<^verbatim>\<open>a > b\<close>; every comparison with \<open>NaN\<close> is false.\<close>

fun num_gt :: "jsnum \<Rightarrow> jsnum \<Rightarrow> bool" where
  "num_gt (Fin a) (Fin b) \<longleftrightarrow> b < a"
| "num_gt PosInf (Fin b) \<longleftrightarrow> True"
| "num_gt PosInf NegInf \<longleftrightarrow> True"
| "num_gt (Fin a) NegInf \<longleftrightarrow> True"
| "num_gt _ _ \<longleftrightarrow> False"

definition num_lt :: "jsnum \<Rightarrow> jsnum \<Rightarrow> bool" where
  "num_lt a b = num_gt b a"

text \<open>\<^verbatim>\<open>Math.round\<close>: the nearest integer, a half rounded up.\<close>

fun Math_round :: "jsnum \<Rightarrow> jsnum" where
  "Math_round (Fin q) = Fin (of_int \<lfloor>q + 1 / 2\<rfloor>)"
| "Math_round v = v"

definition numOf :: "nat \<Rightarrow> jsnum" where
  "numOf n = Fin (of_nat n)"

section \<open>The pipeline (\<^verbatim>\<open>pipeline.js\<close>)\<close>

datatype fitMode = Cover | Contain | Inside | Outside | Stretch

datatype format = Jpeg | Png | Webp | Avif

record rect =
  r_x :: jsnum
  r_y :: jsnum
  r_w :: jsnum
  r_h :: jsnum

subsection \<open>computeDrawRect\<close>

definition computeDrawRect :: "nat \<Rightarrow> nat \<Rightarrow> nat \<Rightarrow> nat \<Rightarrow> fitMode \<Rightarrow> rect" where
  "computeDrawRect srcW srcH dstW dstH fit =
     (if fit = Stretch then \<lparr>r_x = numOf 0, r_y = numOf 0, r_w = numOf dstW, r_h = numOf dstH\<rparr>
      else
        let srcRatio = num_div (numOf srcW) (numOf srcH);
            dstRatio = num_div (numOf dstW) (numOf dstH);
            (w, h) =
              (if fit = Cover then
                 (if num_gt srcRatio dstRatio
                  then (Math_round (num_mul (numOf dstH) srcRatio), numOf dstH)
                  else (numOf dstW, Math_round (num_div (numOf dstW) srcRatio)))
               else if fit = Contain \<or> fit = Inside then
                 (if num_gt srcRatio dstRatio
                  then (numOf dstW, Math_round (num_div (numOf dstW) srcRatio))
                  else (Math_round (num_mul (numOf dstH) srcRatio), numOf dstH))
               else if fit = Outside then
                 (if num_gt srcRatio dstRatio
                  then (Math_round (num_mul (numOf dstH) srcRatio), numOf dstH)
                  else (numOf dstW, Math_round (num_div (numOf dstW) srcRatio)))
               else (numOf dstW, numOf dstH));
            x = Math_round (num_div (num_sub (numOf dstW) w) (numOf 2));
            y = Math_round (num_div (num_sub (numOf dstH) h) (numOf 2))
        in \<lparr>r_x = x, r_y = y, r_w = w, r_h = h\<rparr>)"

subsection \<open>Small string helpers of the built-in library\<close>

text \<open>\<^verbatim>\<open>s.split(sep)\<close> for a separator of one code unit; the result is never empty.\<close>

fun split_on :: "jschar \<Rightarrow> jsstring \<Rightarrow> jsstring list" where
  "split_on sep [] = [[]]"
| "split_on sep (c # cs) =
     (if c = sep then [] # split_on sep cs
      else (case split_on sep cs of [] \<Rightarrow> [[c]] | p # ps \<Rightarrow> (c # p) # ps))"

text \<open>\<^verbatim>\<open>parts.join(sep)\<close>.\<close>

fun join :: "jsstring \<Rightarrow> jsstring list \<Rightarrow> jsstring" where
  "join sep [] = []"
| "join sep [p] = p"
| "join sep (p # q # ps) = p @ sep @ join sep (q # ps)"

text \<open>\<^verbatim>\<open>xs[i]\<close> read from an array: \<open>undefined\<close> out of range.\<close>

definition at_index :: "'a list \<Rightarrow> nat \<Rightarrow> 'a option" where
  "at_index xs i = (if i < length xs then Some (xs ! i) else None)"

text \<open>
  \<^verbatim>\<open>s.replaceAll(pattern, replacement)\<close> with a string pattern. The replacement is a
  template: \<^verbatim>\<open>$$\<close> stands for a dollar sign, \<^verbatim>\<open>$&\<close> for the match,
  \<^verbatim>\<open>$`\<close> for the text before the match and \<^verbatim>\<open>$'\<close> for the text after it;
  a string pattern has no groups, so every other \<^verbatim>\<open>$\<close> is literal.
\<close>

fun getSubstitution :: "jsstring \<Rightarrow> jsstring \<Rightarrow> jsstring \<Rightarrow> jsstring \<Rightarrow> jsstring" where
  "getSubstitution matched leftPart rightPart [] = []"
| "getSubstitution matched leftPart rightPart [c] = [c]"
| "getSubstitution matched leftPart rightPart (c # d # cs) =
     (if c \<noteq> 36 then c # getSubstitution matched leftPart rightPart (d # cs)
      else if d = 36 then 36 # getSubstitution matched leftPart rightPart cs
      else if d = 38 then matched @ getSubstitution matched leftPart rightPart cs
      else if d = 96 then leftPart @ getSubstitution matched leftPart rightPart cs
      else if d = 39 then rightPart @ getSubstitution matched leftPart rightPart cs
      else c # getSubstitution matched leftPart rightPart (d # cs))"

function replaceFrom :: "jsstring \<Rightarrow> jsstring \<Rightarrow> jsstring \<Rightarrow> jsstring \<Rightarrow> jsstring" where
  "replaceFrom pat rep leftPart rest =
     (if take (length pat) rest = pat \<and> length pat \<le> length rest then
        getSubstitution pat leftPart (drop (length pat) rest) rep
        @ (if pat = [] then
             (case rest of [] \<Rightarrow> [] | c # cs \<Rightarrow> c # replaceFrom pat rep (leftPart @ [c]) cs)
           else replaceFrom pat rep (leftPart @ pat) (drop (length pat) rest))
      else (case rest of [] \<Rightarrow> [] | c # cs \<Rightarrow> c # replaceFrom pat rep (leftPart @ [c]) cs))"
  by pat_completeness auto
termination
proof (relation "measure (\<lambda>(pat, rep, leftPart, rest). length rest)", goal_cases)
  case 3
  then show ?case
    by simp (metis diff_less length_greater_0_conv less_le_trans)
qed simp_all

declare replaceFrom.simps [simp del]

definition replaceAll :: "jsstring \<Rightarrow> jsstring \<Rightarrow> jsstring \<Rightarrow> jsstring" where
  "replaceAll s pat rep = replaceFrom pat rep [] s"

subsection \<open>utils.js: hexToRgba and inferOutputName\<close>

definition hexDigit :: "jschar \<Rightarrow> nat option" where
  "hexDigit c =
     (if 48 \<le> c \<and> c \<le> 57 then Some (c - 48)
      else if 97 \<le> c \<and> c \<le> 102 then Some (c - 87)
      else if 65 \<le> c \<and> c \<le> 70 then Some (c - 55)
      else None)"

text \<open>
  \<^verbatim>\<open>/^#?([a-f\d]{2})([a-f\d]{2})([a-f\d]{2})$/i\<close>: an optional \<open>#\<close> and exactly six
  hexadecimal digits; anything else gives white.
\<close>

definition hexToRgba :: "jsstring \<Rightarrow> real \<Rightarrow> nat \<times> nat \<times> nat \<times> real" where
  "hexToRgba hex alpha =
     (let digits = (case hex of [] \<Rightarrow> [] | c # cs \<Rightarrow> if c = 35 then cs else hex) in
        case map hexDigit digits of
          [Some a, Some b, Some c, Some d, Some e, Some f] \<Rightarrow>
            (16 * a + b, 16 * c + d, 16 * e + f, alpha)
        | _ \<Rightarrow> (255, 255, 255, alpha))"

text \<open>\<^verbatim>\<open>replace(/\.[^.]+$/, '')\<close>: a last dot with something after it goes, with what follows.\<close>

definition stripExtension :: "jsstring \<Rightarrow> jsstring" where
  "stripExtension s =
     (let parts = split_on dot s in
        if 2 \<le> length parts \<and> last parts \<noteq> [] then join [dot] (butlast parts) else s)"

definition formatName :: "format \<Rightarrow> jsstring" where
  "formatName f =
     (case f of Jpeg \<Rightarrow> js ''jpeg'' | Png \<Rightarrow> js ''png'' | Webp \<Rightarrow> js ''webp''
      | Avif \<Rightarrow> js ''avif'')"

text \<open>
  The object \<^verbatim>\<open>transformSingle\<close> hands to \<^verbatim>\<open>inferOutputName\<close>: the preset with
  the canvas size, the global naming pattern and the product name.
\<close>

record namingPreset =
  n_name :: jsstring
  n_width :: nat
  n_height :: nat
  n_format :: format
  n_namingPattern :: jsstring
  n_productName :: jsstring

definition inferOutputName :: "jsstring \<Rightarrow> nat \<Rightarrow> namingPreset \<Rightarrow> jsstring" where
  "inferOutputName inputName index preset =
     (let base = stripExtension (orElse inputName (js ''image''));
          pattern = orElse (n_namingPattern preset) (js ''{name}_{preset}'');
          s = replaceAll pattern (js ''{name}'') base;
          s = replaceAll s (js ''{index}'') (string_of_nat index);
          s = replaceAll s (js ''{preset}'') (orElse (n_name preset) (js ''preset''));
          s = replaceAll s (js ''{width}'') (string_of_nat (n_width preset));
          s = replaceAll s (js ''{height}'') (string_of_nat (n_height preset));
          s = replaceAll s (js ''{format}'') (formatName (n_format preset));
          s = replaceAll s (js ''{product}'') (n_productName preset)
      in s)"

subsection \<open>The host: codecs, canvas, file reader, EXIF and archive libraries\<close>

text \<open>
  Everything the pipeline asks of the browser and of the libraries \<^verbatim>\<open>exifr\<close>,
  \<^verbatim>\<open>piexif\<close> and \<^verbatim>\<open>JSZip\<close> is a parameter of the model (the record \<open>host\<close>
  below). A call that can throw or reject returns an \<open>option\<close>, and \<open>None\<close> is the
  failure. What the code throws or lets through is an \<open>error\<close>.
\<close>

datatype error =
    ReadError
  | DecodeError
  | ContextUnavailable
  | IndexSizeError
  | ToBlobUnavailable
  | ToBlobFailed
  | ArchiveError

text \<open>
  The state of a promise once the event loop has run: resolved with a value, rejected
  with an error, or never settled.
\<close>

datatype 'a promise = Resolved 'a | Rejected error | Pending

definition await :: "'a promise \<Rightarrow> ('a \<Rightarrow> 'b promise) \<Rightarrow> 'b promise" where
  "await p k = (case p of Resolved v \<Rightarrow> k v | Rejected e \<Rightarrow> Rejected e | Pending \<Rightarrow> Pending)"

text \<open>A synchronous \<^verbatim>\<open>throw\<close> inside an \<^verbatim>\<open>async\<close> function rejects its promise.\<close>

definition try_sync :: "error + 'a \<Rightarrow> ('a \<Rightarrow> 'b promise) \<Rightarrow> 'b promise" where
  "try_sync r k = (case r of Inl e \<Rightarrow> Rejected e | Inr v \<Rightarrow> k v)"

record sourceFile =
  f_name :: jsstring
  f_bytes :: "nat list"

record imageBitmap =
  bm_width :: nat
  bm_height :: nat
  bm_pixels :: "nat list"

record blob =
  blob_bytes :: "nat list"
  blob_type :: jsstring

text \<open>
  A canvas is its size, its alpha flag and the calls made on its 2D context, in order.
  A rotation is counted in quarter turns (\<^verbatim>\<open>0.5 * Math.PI\<close> is one, \<^verbatim>\<open>Math.PI\<close>
  two). \<open>FillRect\<close> carries the fill style set just before it.
\<close>

datatype 'i canvasOp =
    ClearRect nat nat nat nat
  | FillRect "nat \<times> nat \<times> nat \<times> real" nat nat nat nat
  | Translate int int
  | Scale int int
  | Rotate int
  | DrawImage 'i jsnum jsnum "(jsnum \<times> jsnum) option"
  | PutImageData "nat list"

record 'i canvas =
  c_width :: nat
  c_height :: nat
  c_alpha :: bool
  c_ops :: "'i canvasOp list"

definition draw :: "'i canvasOp \<Rightarrow> 'i canvas \<Rightarrow> 'i canvas" where
  "draw ops c = c\<lparr>c_ops := c_ops c @ [ops]\<rparr>"

datatype ifdTag = XResolution | YResolution | ResolutionUnit | ImageDescription

datatype ifdValue = Rational real real | Short nat | Ascii jsstring

text \<open>
  The archive under construction: the folders created and the files stored, each under
  its folder and name. Storing under a name that exists replaces the entry.
\<close>

record zipState =
  z_folders :: "jsstring list"
  z_files :: "((jsstring \<times> jsstring) \<times> blob) list"

record host =
  file_readable :: "sourceFile \<Rightarrow> bool"
  exifr_parse :: "nat list \<Rightarrow> nat option option"
  createImageBitmap :: "nat list \<Rightarrow> bool \<Rightarrow> imageBitmap option"
  getContext :: "nat \<Rightarrow> nat \<Rightarrow> bool \<Rightarrow> bool"
  getImageData :: "imageBitmap canvas canvas \<Rightarrow> nat list"
  has_toBlob :: bool
  toBlob :: "imageBitmap canvas canvas \<Rightarrow> jsstring \<Rightarrow> real \<Rightarrow> blob option"
  readAsDataURL :: "blob \<Rightarrow> jsstring option"
  piexif_dump :: "(ifdTag \<times> ifdValue) list \<Rightarrow> jsstring option"
  piexif_insert :: "jsstring \<Rightarrow> jsstring \<Rightarrow> jsstring option"
  atob :: "jsstring \<Rightarrow> jsstring option"
  generateAsync :: "zipState \<Rightarrow> blob option"

text \<open>
  \<^item> \<open>file_readable\<close>: whether \<^verbatim>\<open>file.arrayBuffer()\<close> resolves (with the bytes).
  \<^item> \<open>exifr_parse\<close>: \<open>None\<close> when \<^verbatim>\<open>exifr\<close> is absent, throws or returns nothing;
    otherwise the \<^verbatim>\<open>Orientation\<close> field of the tags, if there is one.
  \<^item> \<open>createImageBitmap\<close>: the flag says whether the option
    \<^verbatim>\<open>imageOrientation: 'from-image'\<close> is passed; \<open>None\<close> when the promise rejects.
  \<^item> \<open>getContext\<close>: whether \<^verbatim>\<open>canvas.getContext('2d', {alpha})\<close> returns a context
    for a canvas of that size.
  \<^item> \<open>getImageData\<close>: the RGBA bytes of the whole canvas, row by row.
  \<^item> \<open>toBlob\<close>: \<open>None\<close> when the callback receives \<^verbatim>\<open>null\<close>.
  \<^item> \<open>readAsDataURL\<close>: \<open>None\<close> when the reader never fires \<^verbatim>\<open>onload\<close>.
  \<^item> \<open>piexif_dump\<close>, \<open>piexif_insert\<close>, \<open>atob\<close>: \<open>None\<close> when the call throws.
  \<^item> \<open>generateAsync\<close>: \<open>None\<close> when the archive cannot be generated.
\<close>

subsection \<open>loadImageWithMetadata\<close>

text \<open>The metadata is kept as the one field the pipeline reads, \<^verbatim>\<open>exif.Orientation\<close>.\<close>

definition loadImageWithMetadata ::
  "host \<Rightarrow> sourceFile \<Rightarrow> (imageBitmap \<times> nat option) promise" where
  "loadImageWithMetadata H file =
     (if \<not> file_readable H file then Rejected ReadError
      else
        let arrayBuffer = f_bytes file;
            exif = (case exifr_parse H arrayBuffer of None \<Rightarrow> None | Some tags \<Rightarrow> tags)
        in case createImageBitmap H arrayBuffer True of
             Some imageBitmap \<Rightarrow> Resolved (imageBitmap, exif)
           | None \<Rightarrow>
               (case createImageBitmap H arrayBuffer False of
                  Some imageBitmap \<Rightarrow> Resolved (imageBitmap, exif)
                | None \<Rightarrow> Rejected DecodeError))"

subsection \<open>getCanvasContext and correctOrientationToCanvas\<close>

definition getCanvasContext :: "host \<Rightarrow> nat \<Rightarrow> nat \<Rightarrow> bool \<Rightarrow> error + 'i canvas" where
  "getCanvasContext H width height useAlpha =
     (if getContext H width height useAlpha
      then Inr \<lparr>c_width = width, c_height = height, c_alpha = useAlpha, c_ops = []\<rparr>
      else Inl ContextUnavailable)"

text \<open>The \<^verbatim>\<open>switch\<close> on the orientation code: the transform set before the draw.\<close>

definition orientationTransform :: "nat \<Rightarrow> nat \<Rightarrow> nat \<Rightarrow> 'i canvasOp list" where
  "orientationTransform orientation width height =
     (if orientation = 2 then [Translate (int width) 0, Scale (- 1) 1]
      else if orientation = 3 then [Translate (int width) (int height), Rotate 2]
      else if orientation = 4 then [Translate 0 (int height), Scale 1 (- 1)]
      else if orientation = 5 then [Rotate 1, Scale 1 (- 1)]
      else if orientation = 6 then [Rotate 1, Translate 0 (- int height)]
      else if orientation = 7 then [Rotate 1, Translate (int width) (- int height), Scale (- 1) 1]
      else if orientation = 8 then [Rotate (- 1), Translate (- int width) 0]
      else [])"

text \<open>
  The orientation is \<open>None\<close> for \<^verbatim>\<open>undefined\<close>; \<^verbatim>\<open>!orientation\<close> also holds
  for \<open>0\<close>. A value that is not a number (a tag translated to text) fails every test
  and every \<^verbatim>\<open>case\<close>, like a code above \<open>8\<close>.
\<close>

definition correctOrientationToCanvas ::
  "host \<Rightarrow> imageBitmap \<Rightarrow> nat option \<Rightarrow> error + imageBitmap canvas" where
  "correctOrientationToCanvas H imageBitmap orientation =
     (case orientation of
        None \<Rightarrow>
          map_sum id (draw (DrawImage imageBitmap (numOf 0) (numOf 0) None))
            (getCanvasContext H (bm_width imageBitmap) (bm_height imageBitmap) True)
      | Some code \<Rightarrow>
          if code = 0 \<or> code = 1 then
            map_sum id (draw (DrawImage imageBitmap (numOf 0) (numOf 0) None))
              (getCanvasContext H (bm_width imageBitmap) (bm_height imageBitmap) True)
          else
            let swap = (5 \<le> code \<and> code \<le> 8);
                width = (if swap then bm_height imageBitmap else bm_width imageBitmap);
                height = (if swap then bm_width imageBitmap else bm_height imageBitmap)
            in map_sum id
                 (\<lambda>canvas. draw (DrawImage imageBitmap (numOf 0) (numOf 0) None)
                    (canvas\<lparr>c_ops := c_ops canvas @ orientationTransform code width height\<rparr>))
                 (getCanvasContext H width height True))"

subsection \<open>applySharpen\<close>

text \<open>
  The image data is an array of bytes, four per pixel. Reading past its end gives
  \<^verbatim>\<open>undefined\<close>, which turns the arithmetic into \<open>NaN\<close> (here \<open>None\<close>); a
  \<^verbatim>\<open>Uint8ClampedArray\<close> stores \<open>NaN\<close> as \<open>0\<close>, rounds a half to the even
  neighbour, and ignores a write past its end, as \<open>list_update\<close> does.
\<close>

definition weights :: "int list" where
  "weights = [0, - 1, 0, - 1, 5, - 1, 0, - 1, 0]"

definition wSum :: real where
  "wSum = (let s = sum_list weights in if s = 0 then 1 else of_int s)"

definition get_px :: "nat list \<Rightarrow> nat \<Rightarrow> int \<Rightarrow> int \<Rightarrow> nat \<Rightarrow> real option" where
  "get_px src width x y c =
     (let i = (y * int width + x) * 4 + int c in
        if 0 \<le> i \<and> i < int (length src) then Some (real (src ! nat i)) else None)"

text \<open>The nine offsets \<open>(kx, ky)\<close> in the order of the two inner loops.\<close>

definition offsets :: "(int \<times> int) list" where
  "offsets = concat (map (\<lambda>ky. map (\<lambda>kx. (kx, ky)) [- 1, 0, 1]) [- 1, 0, 1])"

definition kernelSum :: "nat list \<Rightarrow> nat \<Rightarrow> int \<Rightarrow> int \<Rightarrow> nat \<Rightarrow> real option" where
  "kernelSum src width x y c =
     fold (\<lambda>((kx, ky), w) acc.
             case (acc, get_px src width (x + kx) (y + ky) c) of
               (Some a, Some v) \<Rightarrow> Some (a + v * of_int w)
             | _ \<Rightarrow> None)
       (zip offsets weights) (Some 0)"

definition blend :: "real \<Rightarrow> real option \<Rightarrow> real option \<Rightarrow> real option" where
  "blend intensity v acc =
     (case (v, acc) of
        (Some v, Some a) \<Rightarrow> Some ((1 - intensity) * v + intensity * (a / wSum))
      | _ \<Rightarrow> None)"

text \<open>\<^verbatim>\<open>out[i] = Math.max(0, Math.min(255, val))\<close> on a \<^verbatim>\<open>Uint8ClampedArray\<close>.\<close>

definition storeClamped :: "real option \<Rightarrow> nat" where
  "storeClamped val =
     (case val of
        None \<Rightarrow> 0
      | Some v \<Rightarrow>
          let v = max 0 (min 255 v);
              f = \<lfloor>v\<rfloor>;
              r = v - of_int f
          in nat (if r < 1 / 2 then f else if 1 / 2 < r then f + 1
                  else if even f then f else f + 1))"

definition sharpenPixel ::
  "nat list \<Rightarrow> nat \<Rightarrow> real \<Rightarrow> nat \<Rightarrow> nat \<Rightarrow> nat list \<Rightarrow> nat list" where
  "sharpenPixel src width intensity y x out =
     (let out =
            fold (\<lambda>c out.
                    out[(y * width + x) * 4 + c :=
                      storeClamped (blend intensity (get_px src width (int x) (int y) c)
                                      (kernelSum src width (int x) (int y) c))])
              [0, 1, 2] out
      in out[(y * width + x) * 4 + 3 := storeClamped (get_px src width (int x) (int y) 3)])"

text \<open>
  The data handed to \<^verbatim>\<open>putImageData\<close>: a new array of zeros of the length of the
  source, written by the loops over \<open>1 \<le> y < height - 1\<close> and \<open>1 \<le> x < width - 1\<close>.
\<close>

definition sharpenData :: "nat list \<Rightarrow> nat \<Rightarrow> nat \<Rightarrow> real \<Rightarrow> nat list" where
  "sharpenData src width height intensity =
     fold (\<lambda>y out. fold (sharpenPixel src width intensity y) [1..<width - 1] out)
       [1..<height - 1] (replicate (length src) 0)"

text \<open>\<^verbatim>\<open>getImageData\<close> throws on a rectangle without pixels.\<close>

definition applySharpen ::
  "host \<Rightarrow> imageBitmap canvas canvas \<Rightarrow> nat \<Rightarrow> nat \<Rightarrow> real
   \<Rightarrow> error + imageBitmap canvas canvas" where
  "applySharpen H ctx width height intensity =
     (if intensity \<le> 0 then Inr ctx
      else if width = 0 \<or> height = 0 then Inl IndexSizeError
      else Inr (draw (PutImageData (sharpenData (getImageData H ctx) width height intensity))
                  ctx))"

subsection \<open>renderToBlob\<close>

definition mimeType :: "format \<Rightarrow> jsstring" where
  "mimeType f =
     (case f of Jpeg \<Rightarrow> js ''image/jpeg'' | Png \<Rightarrow> js ''image/png''
      | Webp \<Rightarrow> js ''image/webp'' | Avif \<Rightarrow> js ''image/avif'')"

definition renderToBlob ::
  "host \<Rightarrow> imageBitmap canvas canvas \<Rightarrow> format \<Rightarrow> real \<Rightarrow> blob promise" where
  "renderToBlob H canvas format quality =
     (if \<not> has_toBlob H then Rejected ToBlobUnavailable
      else case toBlob H canvas (mimeType format) quality of
             Some b \<Rightarrow> Resolved b
           | None \<Rightarrow> Rejected ToBlobFailed)"

subsection \<open>injectJpegDpiIfNeeded and injectJpegComment\<close>

text \<open>
  The body of the \<^verbatim>\<open>try\<close> block the two functions share, from \<^verbatim>\<open>piexif.dump\<close> to
  the new blob: \<open>None\<close> when a statement of it throws. A missing second part of a
  \<^verbatim>\<open>split\<close> is \<^verbatim>\<open>undefined\<close>: \<^verbatim>\<open>atob\<close> then receives the string
  \<^verbatim>\<open>undefined\<close>, and \<^verbatim>\<open>undefined.split\<close> throws.
\<close>

definition insertExif :: "host \<Rightarrow> (ifdTag \<times> ifdValue) list \<Rightarrow> jsstring \<Rightarrow> blob option" where
  "insertExif H zeroth dataUrl =
     (case piexif_dump H zeroth of
        None \<Rightarrow> None
      | Some exifBytes \<Rightarrow>
          (case piexif_insert H exifBytes dataUrl of
             None \<Rightarrow> None
           | Some inserted \<Rightarrow>
               (case atob H (case at_index (split_on 44 inserted) 1 of
                               None \<Rightarrow> js ''undefined'' | Some part \<Rightarrow> part) of
                  None \<Rightarrow> None
                | Some byteString \<Rightarrow>
                    (case at_index (split_on 58 inserted) 1 of
                       None \<Rightarrow> None
                     | Some rest \<Rightarrow>
                         Some \<lparr>blob_bytes = map (\<lambda>c. c mod 256) byteString,
                               blob_type = hd (split_on 59 rest)\<rparr>))))"

text \<open>The tags each function puts into the \<^verbatim>\<open>0th\<close> directory.\<close>

definition dpiTags :: "real \<Rightarrow> (ifdTag \<times> ifdValue) list" where
  "dpiTags dpi =
     [(XResolution, Rational dpi 1), (YResolution, Rational dpi 1), (ResolutionUnit, Short 2)]"

definition descriptionTags :: "jsstring \<Rightarrow> jsstring \<Rightarrow> (ifdTag \<times> ifdValue) list" where
  "descriptionTags productName comment =
     (let desc = join (js '' - '') (filter (\<lambda>s. s \<noteq> []) [productName, comment])
      in if desc \<noteq> [] then [(ImageDescription, Ascii desc)] else [])"

text \<open>
  The promise settles in \<^verbatim>\<open>onload\<close> only, and there always by \<^verbatim>\<open>resolve\<close>: with
  the new blob, or from the \<^verbatim>\<open>catch\<close> with the blob it was given.
\<close>

definition injectJpegDpiIfNeeded :: "host \<Rightarrow> blob \<Rightarrow> real \<Rightarrow> blob promise" where
  "injectJpegDpiIfNeeded H blob dpi =
     (if dpi = 0 \<or> dpi \<le> 0 then Resolved blob
      else case readAsDataURL H blob of
             None \<Rightarrow> Pending
           | Some dataUrl \<Rightarrow>
               (case insertExif H (dpiTags dpi) dataUrl of
                  Some b \<Rightarrow> Resolved b
                | None \<Rightarrow> Resolved blob))"

definition injectJpegComment :: "host \<Rightarrow> blob \<Rightarrow> jsstring \<Rightarrow> jsstring \<Rightarrow> blob promise" where
  "injectJpegComment H blob productName comment =
     (case readAsDataURL H blob of
        None \<Rightarrow> Pending
      | Some dataUrl \<Rightarrow>
          (case insertExif H (descriptionTags productName comment) dataUrl of
             Some b \<Rightarrow> Resolved b
           | None \<Rightarrow> Resolved blob))"

subsection \<open>transformSingle\<close>

text \<open>
  A size that is not set is \<open>None\<close>; \<open>0\<close> is falsy like \<^verbatim>\<open>undefined\<close>. The option
  \<open>keepAspect\<close> is tested by \<^verbatim>\<open>!== false\<close>, so an absent one counts as \<open>True\<close>, and
  so does \<open>preserveTransparency\<close>. A number that cannot be parsed (\<open>NaN\<close>) is falsy and
  fails every comparison, like \<open>0\<close> in the tests made of \<open>jpegDpi\<close> and \<open>sharpen\<close>.
\<close>

record preset =
  p_name :: jsstring
  p_width :: "nat option"
  p_height :: "nat option"
  p_fit :: fitMode
  p_format :: format
  p_quality :: real
  p_sharpen :: real
  p_background :: jsstring
  p_keepAspect :: bool

record globalOptions =
  g_jpegDpi :: real
  g_backgroundColor :: jsstring
  g_preserveTransparency :: bool
  g_namingPattern :: jsstring
  g_productName :: jsstring
  g_comment :: jsstring

definition truthy :: "nat option \<Rightarrow> bool" where
  "truthy v = (case v of None \<Rightarrow> False | Some n \<Rightarrow> 0 < n)"

text \<open>A size read as a number: \<^verbatim>\<open>undefined\<close> becomes \<open>NaN\<close>.\<close>

definition toNumber :: "nat option \<Rightarrow> jsnum" where
  "toNumber v = (case v of None \<Rightarrow> NaN | Some n \<Rightarrow> numOf n)"

text \<open>
  Lines 222 to 232: the target size, where a single given side and \<open>keepAspect\<close> give
  the other side.
\<close>

definition targetSize :: "nat \<Rightarrow> nat \<Rightarrow> preset \<Rightarrow> jsnum \<times> jsnum" where
  "targetSize srcW srcH preset =
     (let targetW = toNumber (p_width preset);
          targetH = toNumber (p_height preset)
      in if p_keepAspect preset then
           let aspect = num_div (numOf srcW) (numOf srcH) in
             if truthy (p_width preset) \<and> \<not> truthy (p_height preset)
             then (targetW, Math_round (num_div targetW aspect))
             else if \<not> truthy (p_width preset) \<and> truthy (p_height preset)
             then (Math_round (num_mul targetH aspect), targetH)
             else (targetW, targetH)
         else (targetW, targetH))"

text \<open>
  \<^verbatim>\<open>canvas.width = v\<close>: a value that is not finite (or \<^verbatim>\<open>undefined\<close>, read as
  \<open>NaN\<close>) gives \<open>0\<close>. The values assigned are whole and never negative; the wrap of
  the attribute at \<open>2^31\<close> is left out.
\<close>

definition canvasSize :: "jsnum \<Rightarrow> nat" where
  "canvasSize v = (case v of Fin q \<Rightarrow> nat \<lfloor>q\<rfloor> | _ \<Rightarrow> 0)"

text \<open>
  Lines 218 to 258: the destination canvas, cleared, filled by the background policy,
  with the oriented source drawn into the rectangle.
\<close>

definition composite ::
  "host \<Rightarrow> imageBitmap canvas \<Rightarrow> preset \<Rightarrow> globalOptions \<Rightarrow> error + imageBitmap canvas canvas" where
  "composite H orientedCanvas preset globalOptions =
     (let srcW = c_width orientedCanvas;
          srcH = c_height orientedCanvas;
          (targetW, targetH) = targetSize srcW srcH preset;
          useAlpha = (p_format preset \<noteq> Jpeg \<and> g_preserveTransparency globalOptions)
      in case getCanvasContext H (canvasSize targetW) (canvasSize targetH) useAlpha of
           Inl e \<Rightarrow> Inl e
         | Inr canvas \<Rightarrow>
             let w = c_width canvas;
                 h = c_height canvas;
                 canvas = draw (ClearRect 0 0 w h) canvas;
                 singleDim = ((truthy (p_width preset) \<and> \<not> truthy (p_height preset))
                              \<or> (\<not> truthy (p_width preset) \<and> truthy (p_height preset)));
                 rect = (if \<not> singleDim then computeDrawRect srcW srcH w h (p_fit preset)
                         else \<lparr>r_x = numOf 0, r_y = numOf 0, r_w = numOf w, r_h = numOf h\<rparr>);
                 leavesMargins = (num_gt (r_x rect) (numOf 0) \<or> num_gt (r_y rect) (numOf 0)
                                  \<or> num_lt (r_w rect) (numOf w) \<or> num_lt (r_h rect) (numOf h));
                 canvas =
                   (if \<not> useAlpha \<or> (\<not> g_preserveTransparency globalOptions \<and> leavesMargins)
                    then
                      let bg = orElse (p_background preset)
                                 (orElse (g_backgroundColor globalOptions) (js ''#ffffff''))
                      in draw (FillRect (hexToRgba bg 1) 0 0 w h) canvas
                    else canvas)
             in Inr (draw (DrawImage orientedCanvas (r_x rect) (r_y rect)
                            (Some (r_w rect, r_h rect))) canvas))"

definition extension :: "format \<Rightarrow> jsstring" where
  "extension f = (if f = Jpeg then js ''jpg'' else formatName f)"

definition transformSingle ::
  "host \<Rightarrow> sourceFile \<Rightarrow> preset \<Rightarrow> globalOptions \<Rightarrow> nat \<Rightarrow> nat \<Rightarrow> (blob \<times> jsstring) promise" where
  "transformSingle H file preset globalOptions index totalFiles =
     await (loadImageWithMetadata H file) (\<lambda>(imageBitmap, orientation).
     try_sync (correctOrientationToCanvas H imageBitmap orientation) (\<lambda>orientedCanvas.
     try_sync (composite H orientedCanvas preset globalOptions) (\<lambda>canvas.
     try_sync (if 0 < p_sharpen preset
               then applySharpen H canvas (c_width canvas) (c_height canvas)
                      (min 1 (max 0 (p_sharpen preset)))
               else Inr canvas) (\<lambda>canvas.
     await (renderToBlob H canvas (p_format preset) (p_quality preset)) (\<lambda>blob.
     await (if p_format preset = Jpeg \<and> g_jpegDpi globalOptions \<noteq> 0
            then injectJpegDpiIfNeeded H blob (g_jpegDpi globalOptions)
            else Resolved blob) (\<lambda>blob.
     await (if p_format preset = Jpeg
               \<and> (g_productName globalOptions \<noteq> [] \<or> g_comment globalOptions \<noteq> [])
            then injectJpegComment H blob (g_productName globalOptions) (g_comment globalOptions)
            else Resolved blob) (\<lambda>blob.
       let outputName =
             inferOutputName (f_name file) index
               \<lparr>n_name = p_name preset, n_width = c_width canvas, n_height = c_height canvas,
                n_format = p_format preset,
                n_namingPattern = g_namingPattern globalOptions,
                n_productName = g_productName globalOptions\<rparr>
       in Resolved (blob, outputName @ [dot] @ extension (p_format preset)))))))))"

subsection \<open>processBatch\<close>

text \<open>
  What the batch changes as it runs: the counter, the archive, the used names of every
  folder (a \<^verbatim>\<open>Map\<close> from folder name to \<^verbatim>\<open>Set\<close>), and the calls made to
  \<^verbatim>\<open>onProgress\<close>, in order.
\<close>

record batchState =
  b_completed :: nat
  b_zip :: zipState
  b_folderUsedNames :: "(jsstring \<times> jsstring list) list"
  b_progress :: "(nat \<times> nat) list"

text \<open>\<^verbatim>\<open>map.set(k, v)\<close>, and \<^verbatim>\<open>files[k] = v\<close> of the archive: replace or append.\<close>

fun put :: "'k \<Rightarrow> 'v \<Rightarrow> ('k \<times> 'v) list \<Rightarrow> ('k \<times> 'v) list" where
  "put k v [] = [(k, v)]"
| "put k v ((k', v') # kvs) = (if k' = k then (k, v) # kvs else (k', v') # put k v kvs)"

definition zip_folder :: "jsstring \<Rightarrow> zipState \<Rightarrow> zipState" where
  "zip_folder folderName z = z\<lparr>z_folders := set_add folderName (z_folders z)\<rparr>"

definition zip_file :: "jsstring \<Rightarrow> jsstring \<Rightarrow> blob \<Rightarrow> zipState \<Rightarrow> zipState" where
  "zip_file folderName finalName content z =
     z\<lparr>z_files := put (folderName, finalName) content (z_files z)\<rparr>"

text \<open>The folder of a preset: \<^verbatim>\<open>sanitizeFilename(preset.name || 'preset')\<close>.\<close>

definition presetFolder :: "preset \<Rightarrow> jsstring" where
  "presetFolder preset = sanitizeFilename (orElse (p_name preset) (js ''preset'')) 120"

text \<open>
  Lines 295 to 307: what the loop body does with the result of \<^verbatim>\<open>transformSingle\<close>.
  The flag \<open>onProgress\<close> says whether a callback was given.
\<close>

definition storeArtifact ::
  "preset \<Rightarrow> bool \<Rightarrow> nat \<Rightarrow> blob \<times> jsstring \<Rightarrow> batchState \<Rightarrow> batchState" where
  "storeArtifact preset onProgress totalCount result st =
     (let (content, outputName) = result;
          parts = split_on dot outputName;
          ext = last parts;
          base = orElse (join [dot] (butlast parts)) (js ''image'');
          safeBase = sanitizeFilename base 120;
          folderName = presetFolder preset;
          z = zip_folder folderName (b_zip st);
          used = (case map_of (b_folderUsedNames st) folderName of
                    None \<Rightarrow> [] | Some names \<Rightarrow> names);
          (uniqueBase, used) = makeUniqueName safeBase used;
          finalName = uniqueBase @ [dot] @ ext;
          z = zip_file folderName finalName content z;
          completed = b_completed st + 1
      in \<lparr>b_completed = completed, b_zip = z,
          b_folderUsedNames = put folderName used (b_folderUsedNames st),
          b_progress = (if onProgress then b_progress st @ [(completed, totalCount)]
                        else b_progress st)\<rparr>)"

text \<open>
  The inner loop, over the presets, for the file at index \<open>i\<close>; then the outer loop,
  over the files. An \<^verbatim>\<open>await\<close> that rejects ends both loops there, and one that
  never settles stops them there. The pause taken after every fifth job (a timer of
  zero delay) changes nothing in the state and is left out.
\<close>

fun presetsLoop ::
  "host \<Rightarrow> globalOptions \<Rightarrow> bool \<Rightarrow> nat \<Rightarrow> nat \<Rightarrow> sourceFile \<Rightarrow> nat \<Rightarrow> preset list
   \<Rightarrow> batchState \<Rightarrow> batchState \<times> unit promise" where
  "presetsLoop H globalOptions onProgress totalCount nFiles file i [] st = (st, Resolved ())"
| "presetsLoop H globalOptions onProgress totalCount nFiles file i (preset # rest) st =
     (case transformSingle H file preset globalOptions i nFiles of
        Resolved result \<Rightarrow>
          presetsLoop H globalOptions onProgress totalCount nFiles file i rest
            (storeArtifact preset onProgress totalCount result st)
      | Rejected e \<Rightarrow> (st, Rejected e)
      | Pending \<Rightarrow> (st, Pending))"

fun filesLoop ::
  "host \<Rightarrow> globalOptions \<Rightarrow> bool \<Rightarrow> nat \<Rightarrow> nat \<Rightarrow> preset list \<Rightarrow> nat \<Rightarrow> sourceFile list
   \<Rightarrow> batchState \<Rightarrow> batchState \<times> unit promise" where
  "filesLoop H globalOptions onProgress totalCount nFiles presets i [] st = (st, Resolved ())"
| "filesLoop H globalOptions onProgress totalCount nFiles presets i (file # rest) st =
     (case presetsLoop H globalOptions onProgress totalCount nFiles file i presets st of
        (st', Resolved u) \<Rightarrow>
          filesLoop H globalOptions onProgress totalCount nFiles presets (Suc i) rest st'
      | (st', Rejected e) \<Rightarrow> (st', Rejected e)
      | (st', Pending) \<Rightarrow> (st', Pending))"

text \<open>
  The result is the state the batch leaves behind and the promise it returns: resolved
  with the generated archive, rejected, or never settled. The archive library is taken
  to be loaded, so that \<^verbatim>\<open>new window.JSZip()\<close> succeeds.
\<close>

definition processBatch ::
  "host \<Rightarrow> sourceFile list \<Rightarrow> preset list \<Rightarrow> globalOptions \<Rightarrow> bool
   \<Rightarrow> batchState \<times> blob promise" where
  "processBatch H files presets globalOptions onProgress =
     (let totalCount = length files * length presets;
          st0 = \<lparr>b_completed = 0, b_zip = \<lparr>z_folders = [], z_files = []\<rparr>,
                 b_folderUsedNames = [], b_progress = []\<rparr>;
          (st, r) = filesLoop H globalOptions onProgress totalCount (length files) presets 0
                      files st0
      in (st, await r (\<lambda>u. case generateAsync H (b_zip st) of
                               Some content \<Rightarrow> Resolved content
                             | None \<Rightarrow> Rejected ArchiveError)))"

section \<open>Definitions for the properties\<close>

text \<open>
  Predicates and abbreviations the properties are stated and proved with, and a sample
  host with sample inputs on which they are evaluated.
\<close>

text \<open>A string without a forbidden character.\<close>

definition clean :: "jsstring \<Rightarrow> bool" where
  "clean s = list_all (\<lambda>c. \<not> forbidden c) s"


text \<open>
  A host where decoding fails on an empty file and succeeds otherwise (a 4 by 2 image),
  every canvas call succeeds, and the EXIF library fails on every dump.
\<close>

definition sampleHost :: host where
  "sampleHost =
     \<lparr>file_readable = (\<lambda>f. True),
      exifr_parse = (\<lambda>bytes. None),
      createImageBitmap = (\<lambda>bytes fromImage.
         if bytes = [] then None else Some \<lparr>bm_width = 4, bm_height = 2, bm_pixels = []\<rparr>),
      getContext = (\<lambda>w h a. True),
      getImageData = (\<lambda>c. replicate (c_width c * c_height c * 4) 0),
      has_toBlob = True,
      toBlob = (\<lambda>c t q. Some \<lparr>blob_bytes = [], blob_type = t\<rparr>),
      readAsDataURL = (\<lambda>b. Some []),
      piexif_dump = (\<lambda>zeroth. None),
      piexif_insert = (\<lambda>exifBytes dataUrl. None),
      atob = (\<lambda>s. None),
      generateAsync = (\<lambda>z. Some \<lparr>blob_bytes = [], blob_type = js ''application/zip''\<rparr>)\<rparr>"

text \<open>Two presets with both sides set (one \<open>png\<close> with fit \<open>cover\<close>, one \<open>jpeg\<close> with fit
  \<open>contain\<close>), global options with the fixed naming pattern \<open>x\<close>, and the canvas the
  orientation step returns for the sample image.\<close>

definition pA :: preset where
  "pA = \<lparr>p_name = js ''a'', p_width = Some 2, p_height = Some 2, p_fit = Cover, p_format = Png,
         p_quality = 1, p_sharpen = 0, p_background = [], p_keepAspect = True\<rparr>"

definition pB :: preset where
  "pB = \<lparr>p_name = js ''b'', p_width = Some 3, p_height = Some 3, p_fit = Contain,
         p_format = Jpeg, p_quality = 1, p_sharpen = 0, p_background = [],
         p_keepAspect = True\<rparr>"

definition gO :: globalOptions where
  "gO = \<lparr>g_jpegDpi = 72, g_backgroundColor = js ''#102030'', g_preserveTransparency = True,
         g_namingPattern = js ''x'', g_productName = [], g_comment = []\<rparr>"

definition oriented :: "imageBitmap canvas" where
  "oriented = \<lparr>c_width = 4, c_height = 2, c_alpha = True,
               c_ops = [DrawImage \<lparr>bm_width = 4, bm_height = 2, bm_pixels = []\<rparr>
                          (numOf 0) (numOf 0) None]\<rparr>"

text \<open>The size the orientation step is to give: the sides swapped for the codes 5 to 8.\<close>

definition orientedSize :: "imageBitmap \<Rightarrow> nat option \<Rightarrow> nat \<times> nat" where
  "orientedSize imageBitmap orientation =
     (if orientation \<in> {Some 5, Some 6, Some 7, Some 8}
      then (bm_height imageBitmap, bm_width imageBitmap)
      else (bm_width imageBitmap, bm_height imageBitmap))"

text \<open>The background colour: of the preset, else of the global options, else white.\<close>

definition resolvedBackground :: "preset \<Rightarrow> globalOptions \<Rightarrow> nat \<times> nat \<times> nat \<times> real" where
  "resolvedBackground preset globalOptions =
     hexToRgba (orElse (p_background preset)
                  (orElse (g_backgroundColor globalOptions) (js ''#ffffff''))) 1"

text \<open>The jobs in the order the two loops run them: all presets for each file in turn.\<close>

fun jobs :: "sourceFile list \<Rightarrow> preset list \<Rightarrow> nat \<Rightarrow> (nat \<times> sourceFile \<times> preset) list" where
  "jobs [] presets i = []"
| "jobs (file # rest) presets i =
     map (\<lambda>preset. (i, file, preset)) presets @ jobs rest presets (Suc i)"

text \<open>The body of the two loops, run over a list of jobs.\<close>

fun runJobs ::
  "host \<Rightarrow> globalOptions \<Rightarrow> bool \<Rightarrow> nat \<Rightarrow> nat \<Rightarrow> (nat \<times> sourceFile \<times> preset) list
   \<Rightarrow> batchState \<Rightarrow> batchState \<times> unit promise" where
  "runJobs H g onProgress totalCount nFiles [] st = (st, Resolved ())"
| "runJobs H g onProgress totalCount nFiles ((i, file, preset) # rest) st =
     (case transformSingle H file preset g i nFiles of
        Resolved result \<Rightarrow>
          runJobs H g onProgress totalCount nFiles rest
            (storeArtifact preset onProgress totalCount result st)
      | Rejected e \<Rightarrow> (st, Rejected e)
      | Pending \<Rightarrow> (st, Pending))"

text \<open>Carrying on after a part of the jobs, unless it was rejected or never settled.\<close>

definition andThen ::
  "batchState \<times> unit promise \<Rightarrow> (batchState \<Rightarrow> batchState \<times> unit promise)
   \<Rightarrow> batchState \<times> unit promise" where
  "andThen r k = (case r of (st, Resolved u) \<Rightarrow> k st | (st, Rejected e) \<Rightarrow> (st, Rejected e)
                  | (st, Pending) \<Rightarrow> (st, Pending))"

text \<open>The used names of a folder, and the extension and the unique base name that
  \<open>storeArtifact\<close> computes for an output name.\<close>

definition usedOf :: "batchState \<Rightarrow> jsstring \<Rightarrow> jsstring list" where
  "usedOf st folder =
     (case map_of (b_folderUsedNames st) folder of None \<Rightarrow> [] | Some names \<Rightarrow> names)"

definition artifactExt :: "jsstring \<Rightarrow> jsstring" where
  "artifactExt outputName = last (split_on dot outputName)"

definition artifactBase :: "preset \<Rightarrow> jsstring \<Rightarrow> batchState \<Rightarrow> jsstring" where
  "artifactBase preset outputName st =
     fst (makeUniqueName
            (sanitizeFilename
               (orElse (join [dot] (butlast (split_on dot outputName))) (js ''image'')) 120)
            (usedOf st (presetFolder preset)))"

text \<open>
  Every file of the archive is stored once, every folder is listed once, and the name of
  every file is a used name of its folder, a dot and an extension without a dot.
\<close>

definition archiveInv :: "batchState \<Rightarrow> bool" where
  "archiveInv st \<longleftrightarrow>
     distinct (map fst (z_files (b_zip st)))
     \<and> distinct (z_folders (b_zip st))
     \<and> (\<forall>folder fname. (folder, fname) \<in> set (map fst (z_files (b_zip st))) \<longrightarrow>
          (\<exists>u e. fname = u @ [dot] @ e \<and> dot \<notin> set e \<and> u \<in> set (usedOf st folder)))"

definition f1 :: sourceFile where "f1 = \<lparr>f_name = js ''cat.png'', f_bytes = [1]\<rparr>"

definition f2 :: sourceFile where "f2 = \<lparr>f_name = js ''dog.png'', f_bytes = [2]\<rparr>"

definition fbad :: sourceFile where "fbad = \<lparr>f_name = js ''bad.png'', f_bytes = []\<rparr>"

definition sampleBitmap :: imageBitmap where
  "sampleBitmap = \<lparr>bm_width = 4, bm_height = 2, bm_pixels = []\<rparr>"



section \<open>Properties\<close>

subsection \<open>sanitizeFilename\<close>

lemma collapse_ws_set: "set (collapse_ws s) \<subseteq> insert blank (set s)"
proof (induction s rule: collapse_ws.induct)
  case 1
  show ?case by simp
next
  case (2 c cs)
  show ?case
  proof (cases "is_space c")
    case True
    with 2 have "set (collapse_ws (dropWhile is_space cs)) \<subseteq> insert blank (set cs)"
      using set_dropWhileD [of _ is_space cs] by blast
    with True show ?thesis by auto
  next
    case False
    with 2 show ?thesis by auto
  qed
qed

lemma strip_both_set: "set (strip_both P s) \<subseteq> set s"
  by (auto simp: strip_both_def dest!: set_dropWhileD)

lemma forbidden_dash: "\<not> forbidden dash"
  by (simp add: forbidden_def dash_def)

lemma forbidden_blank: "\<not> forbidden blank"
  by (simp add: forbidden_def blank_def)

lemma clean_replace: "clean (map (\<lambda>c. if forbidden c then dash else c) s)"
  by (induction s) (simp_all add: clean_def forbidden_dash)

lemma clean_collapse_ws: "clean s \<Longrightarrow> clean (collapse_ws s)"
  using collapse_ws_set [of s] forbidden_blank by (auto simp: clean_def list_all_iff)

lemma clean_strip_both: "clean s \<Longrightarrow> clean (strip_both P s)"
  using strip_both_set [of P s] by (auto simp: clean_def list_all_iff)

lemma clean_take: "clean s \<Longrightarrow> clean (take n s)"
  by (auto simp: clean_def list_all_iff dest: in_set_takeD)

lemma clean_if: "clean a \<Longrightarrow> clean b \<Longrightarrow> clean (if q then a else b)"
  by simp

lemma clean_append: "clean a \<Longrightarrow> clean b \<Longrightarrow> clean (a @ b)"
  by (simp add: clean_def)

lemma clean_image: "clean (js ''image'')"
  by (simp add: clean_def js_def forbidden_def)

lemma clean_underscore: "clean (js ''_'')"
  by (simp add: clean_def js_def forbidden_def)

lemma clean_sanitizeFilename: "clean (sanitizeFilename name n)"
  unfolding sanitizeFilename_def Let_def trim_def
  by (intro clean_if clean_take clean_append clean_strip_both clean_collapse_ws
        clean_replace clean_image clean_underscore)

lemma sanitize_length: "length (sanitizeFilename name n) \<le> n"
  by (simp add: sanitizeFilename_def Let_def)

lemma sanitize_nonempty: "0 < n \<Longrightarrow> sanitizeFilename name n \<noteq> []"
  by (auto simp add: sanitizeFilename_def Let_def js_def)

text \<open>
  C10: for every input string and the default length cap of 120, \<open>sanitizeFilename\<close>
  returns a non-empty string of at most 120 code units, none of which is one of
  \<^verbatim>\<open>\ / : * ? " < > |\<close>; so is the folder name of every preset (and the base
  name of every entry, which \<open>storeArtifact\<close> computes by the same call).
\<close>

theorem sanitizeFilename_safe:
  "sanitizeFilename name 120 \<noteq> []
   \<and> length (sanitizeFilename name 120) \<le> 120
   \<and> list_all (\<lambda>c. \<not> forbidden c) (sanitizeFilename name 120)
   \<and> presetFolder preset \<noteq> []
   \<and> list_all (\<lambda>c. \<not> forbidden c) (presetFolder preset)"
  using clean_sanitizeFilename [of name 120]
    clean_sanitizeFilename [of "orElse (p_name preset) (js ''preset'')" 120]
  by (simp add: sanitize_length sanitize_nonempty clean_def presetFolder_def)

subsection \<open>makeUniqueName\<close>

text \<open>The empty string, white space only, dots only, a reserved device name, and a path.\<close>

lemma sanitizeFilename_examples:
  "sanitizeFilename [] 120 = js ''image''"
  "sanitizeFilename (js ''   '') 120 = js ''image''"
  "sanitizeFilename (js ''...'') 120 = js ''image''"
  "sanitizeFilename (js ''con'') 120 = js ''con_''"
  "sanitizeFilename (js ''a/b: c  .. '') 120 = js ''a-b- c''"
  by (simp_all add: sanitizeFilename_def js_def forbidden_def is_space_def trim_def
        strip_both_def dash_def blank_def dot_def reserved_def upper_def Let_def)

lemma uniqueLoop_least:
  "c = suffixed b k \<Longrightarrow> n = Suc k \<Longrightarrow>
   \<exists>m\<ge>k. uniqueLoop b u c n = suffixed b m \<and> suffixed b m \<notin> set u
        \<and> (\<forall>j. k \<le> j \<and> j < m \<longrightarrow> suffixed b j \<in> set u)"
proof (induction b u c n arbitrary: k rule: uniqueLoop.induct)
  case (1 b u c n)
  show ?case
  proof (cases "c \<in> set u")
    case False
    with "1.prems" have "uniqueLoop b u c n = suffixed b k \<and> suffixed b k \<notin> set u"
      by (subst uniqueLoop.simps) simp
    then show ?thesis by auto
  next
    case True
    from "1.IH" [OF True refl refl] obtain m where m: "n \<le> m"
      "uniqueLoop b u (suffixed b n) (Suc n) = suffixed b m" "suffixed b m \<notin> set u"
      "\<forall>j. n \<le> j \<and> j < m \<longrightarrow> suffixed b j \<in> set u"
      by blast
    have "uniqueLoop b u c n = suffixed b m"
      using True m(2) by (subst uniqueLoop.simps) simp
    moreover have "\<forall>j. k \<le> j \<and> j < m \<longrightarrow> suffixed b j \<in> set u"
    proof (intro allI impI)
      fix j assume j: "k \<le> j \<and> j < m"
      show "suffixed b j \<in> set u"
      proof (cases "j = k")
        case True
        with \<open>c \<in> set u\<close> "1.prems" show ?thesis by simp
      next
        case False
        with j "1.prems" have "n \<le> j \<and> j < m" by simp
        with m(4) show ?thesis by blast
      qed
    qed
    moreover have "k \<le> m" using m(1) "1.prems" by simp
    ultimately show ?thesis using m(3) by blast
  qed
qed

text \<open>
  C8: a base name that is not in the used-name set is returned as it is; a base name
  that is in the set is returned with the smallest suffix \<open>-2\<close>, \<open>-3\<close>, \<open>\<dots>\<close> that is not
  in the set; in both cases the returned name is added to the set.
\<close>

theorem makeUniqueName_smallest_suffix:
  "(baseName \<notin> set usedNames \<longrightarrow>
      makeUniqueName baseName usedNames = (baseName, usedNames @ [baseName]))
   \<and> (baseName \<in> set usedNames \<longrightarrow>
      (\<exists>k\<ge>2. makeUniqueName baseName usedNames
                = (suffixed baseName k, usedNames @ [suffixed baseName k])
             \<and> suffixed baseName k \<notin> set usedNames
             \<and> (\<forall>j. 2 \<le> j \<and> j < k \<longrightarrow> suffixed baseName j \<in> set usedNames)))"
proof (intro conjI impI)
  assume "baseName \<notin> set usedNames"
  then show "makeUniqueName baseName usedNames = (baseName, usedNames @ [baseName])"
    by (simp add: makeUniqueName_def set_add_def Let_def uniqueLoop.simps [of baseName usedNames baseName])
next
  assume used: "baseName \<in> set usedNames"
  from uniqueLoop_least [where b = baseName and k = 2 and u = usedNames, OF refl refl]
  obtain k where k: "2 \<le> k"
    "uniqueLoop baseName usedNames (suffixed baseName 2) 3 = suffixed baseName k"
    "suffixed baseName k \<notin> set usedNames"
    "\<forall>j. 2 \<le> j \<and> j < k \<longrightarrow> suffixed baseName j \<in> set usedNames"
    by (auto simp: eval_nat_numeral)
  have "uniqueLoop baseName usedNames baseName 2 = suffixed baseName k"
    using used k(2) by (subst uniqueLoop.simps) (simp add: eval_nat_numeral)
  with k(3) have "makeUniqueName baseName usedNames
                = (suffixed baseName k, usedNames @ [suffixed baseName k])"
    by (simp add: makeUniqueName_def set_add_def Let_def)
  with k show "\<exists>k\<ge>2. makeUniqueName baseName usedNames
                = (suffixed baseName k, usedNames @ [suffixed baseName k])
             \<and> suffixed baseName k \<notin> set usedNames
             \<and> (\<forall>j. 2 \<le> j \<and> j < k \<longrightarrow> suffixed baseName j \<in> set usedNames)"
    by blast
qed

text \<open>
  After \<open>photo\<close> is used once, the next request returns \<open>photo-2\<close> and the third
  \<open>photo-3\<close>.
\<close>

theorem makeUniqueName_photo_witness:
  "js ''photo'' \<in> set [js ''photo'']
   \<and> makeUniqueName (js ''photo'') [] = (js ''photo'', [js ''photo''])
   \<and> makeUniqueName (js ''photo'') [js ''photo'']
       = (suffixed (js ''photo'') 2, [js ''photo'', suffixed (js ''photo'') 2])
   \<and> suffixed (js ''photo'') 2 = js ''photo-2''
   \<and> makeUniqueName (js ''photo'') [js ''photo'', js ''photo-2'']
       = (js ''photo-3'', [js ''photo'', js ''photo-2'', js ''photo-3''])"
  using makeUniqueName_smallest_suffix [of "js ''photo''" "[js ''photo'']"]
  by (simp add: makeUniqueName_def set_add_def Let_def uniqueLoop.simps suffixed_def
        string_of_nat.simps js_def dash_def)

subsection \<open>computeDrawRect\<close>











text \<open>
  C5: the rectangle of fit \<open>outside\<close> is the rectangle of fit \<open>cover\<close> on the same
  sizes.
\<close>

theorem computeDrawRect_outside_is_cover:
  "computeDrawRect srcW srcH dstW dstH Outside = computeDrawRect srcW srcH dstW dstH Cover"
  by (simp add: computeDrawRect_def)


lemma sampleHost_simps:
  "file_readable sampleHost f" "exifr_parse sampleHost bytes = None"
  "createImageBitmap sampleHost bytes fromImage =
     (if bytes = [] then None else Some \<lparr>bm_width = 4, bm_height = 2, bm_pixels = []\<rparr>)"
  "getContext sampleHost w h a" "has_toBlob sampleHost"
  "toBlob sampleHost c t q = Some \<lparr>blob_bytes = [], blob_type = t\<rparr>"
  "readAsDataURL sampleHost b = Some []" "piexif_dump sampleHost zeroth = None"
  "generateAsync sampleHost z = Some \<lparr>blob_bytes = [], blob_type = js ''application/zip''\<rparr>"
  by (simp_all add: sampleHost_def)

subsection \<open>correctOrientationToCanvas\<close>

text \<open>
  C6: for an orientation code from 1 to 8, or none, and an image of any size, the
  canvas that \<open>correctOrientationToCanvas\<close> returns has the sides of the image swapped
  for the codes 5 to 8 and as they are otherwise, and the image is the last thing drawn
  on it; the function fails only when the host gives no 2D context for that size. For
  code 1 the result is a new canvas of the size of the image with the image drawn on it.
\<close>

theorem correctOrientationToCanvas_size:
  assumes "orientation \<in> {None, Some 1, Some 2, Some 3, Some 4, Some 5, Some 6, Some 7, Some 8}"
  shows "(case correctOrientationToCanvas H imageBitmap orientation of
            Inl e \<Rightarrow> e = ContextUnavailable
                      \<and> \<not> getContext H (fst (orientedSize imageBitmap orientation))
                             (snd (orientedSize imageBitmap orientation)) True
          | Inr canvas \<Rightarrow>
              getContext H (fst (orientedSize imageBitmap orientation))
                (snd (orientedSize imageBitmap orientation)) True
              \<and> (c_width canvas, c_height canvas) = orientedSize imageBitmap orientation
              \<and> c_ops canvas \<noteq> []
              \<and> last (c_ops canvas) = DrawImage imageBitmap (numOf 0) (numOf 0) None)
         \<and> (getContext H (bm_width imageBitmap) (bm_height imageBitmap) True \<longrightarrow>
              correctOrientationToCanvas H imageBitmap (Some 1) =
                Inr \<lparr>c_width = bm_width imageBitmap, c_height = bm_height imageBitmap,
                     c_alpha = True,
                     c_ops = [DrawImage imageBitmap (numOf 0) (numOf 0) None]\<rparr>)"
  using assms
  by (auto simp: correctOrientationToCanvas_def getCanvasContext_def orientedSize_def draw_def
        Let_def)

theorem correctOrientationToCanvas_size_witness:
  "Some 6 \<in> {None, Some 1, Some 2, Some 3, Some 4, Some 5, Some 6, Some 7, Some (8::nat)}
   \<and> correctOrientationToCanvas sampleHost \<lparr>bm_width = 4, bm_height = 2, bm_pixels = []\<rparr> (Some 6)
       = Inr \<lparr>c_width = 2, c_height = 4, c_alpha = True,
              c_ops = [Rotate 1, Translate 0 (- 4),
                       DrawImage \<lparr>bm_width = 4, bm_height = 2, bm_pixels = []\<rparr> (numOf 0) (numOf 0) None]\<rparr>
   \<and> correctOrientationToCanvas sampleHost \<lparr>bm_width = 4, bm_height = 2, bm_pixels = []\<rparr> (Some 1)
       = Inr \<lparr>c_width = 4, c_height = 2, c_alpha = True,
              c_ops = [DrawImage \<lparr>bm_width = 4, bm_height = 2, bm_pixels = []\<rparr> (numOf 0) (numOf 0) None]\<rparr>"
  using correctOrientationToCanvas_size [of "Some 6" sampleHost "\<lparr>bm_width = 4, bm_height = 2, bm_pixels = []\<rparr>"]
  by (simp add: correctOrientationToCanvas_def getCanvasContext_def draw_def Let_def
        sampleHost_simps orientationTransform_def)

subsection \<open>Metadata injection\<close>

text \<open>
  C9: when the file reader has delivered the payload and the \<^verbatim>\<open>try\<close> block of an
  injection step throws (the EXIF dump, the insertion or the conversion back to a blob
  fails), the step resolves with the blob it was given; neither step ever rejects.
\<close>

theorem inject_failure_keeps_payload:
  "(0 < dpi \<and> readAsDataURL H blob = Some dataUrl \<and> insertExif H (dpiTags dpi) dataUrl = None
      \<longrightarrow> injectJpegDpiIfNeeded H blob dpi = Resolved blob)
   \<and> (readAsDataURL H blob = Some dataUrl
        \<and> insertExif H (descriptionTags productName comment) dataUrl = None
      \<longrightarrow> injectJpegComment H blob productName comment = Resolved blob)
   \<and> injectJpegDpiIfNeeded H blob dpi \<noteq> Rejected e
   \<and> injectJpegComment H blob productName comment \<noteq> Rejected e"
  by (auto simp: injectJpegDpiIfNeeded_def injectJpegComment_def split: option.splits)

lemma insertExif_dump_fails: "piexif_dump H zeroth = None \<Longrightarrow> insertExif H zeroth dataUrl = None"
  by (simp add: insertExif_def)

theorem inject_failure_keeps_payload_witness:
  "(0::real) < 72 \<and> readAsDataURL sampleHost \<lparr>blob_bytes = [255, 216], blob_type = js ''image/jpeg''\<rparr> = Some []
   \<and> insertExif sampleHost (dpiTags 72) [] = None
   \<and> insertExif sampleHost (descriptionTags (js ''p'') []) [] = None
   \<and> injectJpegDpiIfNeeded sampleHost \<lparr>blob_bytes = [255, 216], blob_type = js ''image/jpeg''\<rparr> 72
       = Resolved \<lparr>blob_bytes = [255, 216], blob_type = js ''image/jpeg''\<rparr>
   \<and> injectJpegComment sampleHost \<lparr>blob_bytes = [255, 216], blob_type = js ''image/jpeg''\<rparr> (js ''p'') []
       = Resolved \<lparr>blob_bytes = [255, 216], blob_type = js ''image/jpeg''\<rparr>"
  using inject_failure_keeps_payload [of 72 sampleHost
      "\<lparr>blob_bytes = [255, 216], blob_type = js ''image/jpeg''\<rparr>" "[]" "js ''p''" "[]"]
  by (simp add: sampleHost_simps insertExif_dump_fails)

subsection \<open>Background policy\<close>

text \<open>
  C4: on the destination canvas that \<open>composite\<close> returns, for the format \<open>jpeg\<close> the
  whole canvas is cleared, then filled with the resolved background colour, and only
  then is the source drawn; for a format with alpha, with transparency preserved and fit
  \<open>cover\<close>, the canvas has an alpha channel and is only cleared before the source is
  drawn: nothing is filled.
\<close>

theorem composite_background_policy:
  assumes "composite H orientedCanvas preset globalOptions = Inr canvas"
  shows "(p_format preset = Jpeg \<longrightarrow>
            (\<exists>x y w h. c_ops canvas =
               [ClearRect 0 0 (c_width canvas) (c_height canvas),
                FillRect (resolvedBackground preset globalOptions) 0 0
                  (c_width canvas) (c_height canvas),
                DrawImage orientedCanvas x y (Some (w, h))]))
       \<and> (p_format preset \<noteq> Jpeg \<and> g_preserveTransparency globalOptions
            \<and> p_fit preset = Cover \<longrightarrow>
            c_alpha canvas
            \<and> (\<exists>x y w h. c_ops canvas =
                  [ClearRect 0 0 (c_width canvas) (c_height canvas),
                   DrawImage orientedCanvas x y (Some (w, h))]))"
  using assms
  by (auto simp: composite_def getCanvasContext_def draw_def Let_def resolvedBackground_def
        split: prod.splits if_splits)

lemma hex_sample: "hexToRgba (js ''#102030'') 1 = (16, 32, 48, 1)"
  by (simp add: hexToRgba_def js_def hexDigit_def)

lemma sample_background: "js ''#102030'' \<noteq> []"
  by (simp add: js_def)

lemma composite_pB:
  "composite sampleHost oriented pB gO =
     Inr \<lparr>c_width = 3, c_height = 3, c_alpha = False,
          c_ops = [ClearRect 0 0 3 3, FillRect (16, 32, 48, 1) 0 0 3 3,
                   DrawImage oriented (Fin 0) (Fin 1) (Some (Fin 3, Fin 2))]\<rparr>"
  by (simp add: composite_def targetSize_def truthy_def toNumber_def canvasSize_def
        getCanvasContext_def sampleHost_simps pB_def gO_def oriented_def Let_def draw_def
        computeDrawRect_def numOf_def num_lt_def orElse_def hex_sample sample_background)

lemma composite_pA:
  "composite sampleHost oriented pA gO =
     Inr \<lparr>c_width = 2, c_height = 2, c_alpha = True,
          c_ops = [ClearRect 0 0 2 2,
                   DrawImage oriented (Fin (- 1)) (Fin 0) (Some (Fin 4, Fin 2))]\<rparr>"
  by (simp add: composite_def targetSize_def truthy_def toNumber_def canvasSize_def
        getCanvasContext_def sampleHost_simps pA_def gO_def oriented_def Let_def draw_def
        computeDrawRect_def numOf_def num_lt_def orElse_def)

theorem composite_background_policy_witness:
  "composite sampleHost oriented pB gO =
     Inr \<lparr>c_width = 3, c_height = 3, c_alpha = False,
          c_ops = [ClearRect 0 0 3 3, FillRect (16, 32, 48, 1) 0 0 3 3,
                   DrawImage oriented (Fin 0) (Fin 1) (Some (Fin 3, Fin 2))]\<rparr>
   \<and> p_format pB = Jpeg \<and> resolvedBackground pB gO = (16, 32, 48, 1)
   \<and> composite sampleHost oriented pA gO =
     Inr \<lparr>c_width = 2, c_height = 2, c_alpha = True,
          c_ops = [ClearRect 0 0 2 2,
                   DrawImage oriented (Fin (- 1)) (Fin 0) (Some (Fin 4, Fin 2))]\<rparr>
   \<and> p_format pA \<noteq> Jpeg \<and> g_preserveTransparency gO \<and> p_fit pA = Cover"
proof -
  have facts: "p_format pB = Jpeg" "resolvedBackground pB gO = (16, 32, 48, 1)"
    "p_format pA \<noteq> Jpeg" "g_preserveTransparency gO" "p_fit pA = Cover"
    by (simp_all add: pA_def pB_def gO_def resolvedBackground_def orElse_def hex_sample
          sample_background)
  show ?thesis
    using composite_background_policy [OF composite_pB]
      composite_background_policy [OF composite_pA]
    unfolding composite_pA composite_pB by (simp add: facts)
qed

subsection \<open>applySharpen\<close>

text \<open>
  Whatever the image and the intensity, every byte of a pixel on the border of the
  image comes out as \<open>0\<close>: the loops write interior pixels only.
\<close>

lemma fold_keeps:
  assumes "\<And>a out. a \<in> set xs \<Longrightarrow> f a out ! i = out ! i"
  shows "fold f xs out ! i = out ! i"
  using assms by (induction xs arbitrary: out) simp_all

lemma sharpenPixel_keeps:
  assumes "\<forall>c<4. i \<noteq> (y * width + x) * 4 + c"
  shows "sharpenPixel src width intensity y x out ! i = out ! i"
proof -
  have "i \<noteq> (y * width + x) * 4 + 0" "i \<noteq> (y * width + x) * 4 + 1"
    "i \<noteq> (y * width + x) * 4 + 2" "i \<noteq> (y * width + x) * 4 + 3"
    using assms [THEN spec, of 0] assms [THEN spec, of 1] assms [THEN spec, of 2]
      assms [THEN spec, of 3] by simp_all
  then show ?thesis
    by (simp add: sharpenPixel_def Let_def)
qed

lemma pixel_index_unique:
  fixes x y c width :: nat
  assumes "(y * width + x) * 4 + c = (y' * width + x') * 4 + c'" "c < 4" "c' < 4"
    "x < width" "x' < width"
  shows "x = x' \<and> y = y'"
proof -
  from assms(1-3) have eq: "y * width + x = y' * width + x'" by arith
  from arg_cong [OF eq, of "\<lambda>n. n mod width"] assms(4,5) have "x = x'" by simp
  moreover from arg_cong [OF eq, of "\<lambda>n. n div width"] assms(4,5) have "y = y'" by simp
  ultimately show ?thesis by simp
qed

lemma sharpenData_border_zero:
  assumes "x < width" "y < height" "x = 0 \<or> y = 0 \<or> x = width - 1 \<or> y = height - 1"
    "c < 4" "(y * width + x) * 4 + c < length src"
  shows "sharpenData src width height intensity ! ((y * width + x) * 4 + c) = 0"
proof -
  let ?i = "(y * width + x) * 4 + c"
  have other: "\<forall>c'<4. ?i \<noteq> (y' * width + x') * 4 + c'"
    if "x' \<in> set [1..<width - 1]" "y' \<in> set [1..<height - 1]" for x' y'
  proof (intro allI impI notI)
    fix c' assume c': "c' < 4" "?i = (y' * width + x') * 4 + c'"
    from that(1) have "x' < width" by auto
    from pixel_index_unique [OF c'(2) assms(4) c'(1) assms(1) this]
    have "x = x' \<and> y = y'" .
    with that assms(3) show False by auto
  qed
  have "sharpenData src width height intensity ! ?i = replicate (length src) 0 ! ?i"
    unfolding sharpenData_def
    by (intro fold_keeps sharpenPixel_keeps other) assumption+
  with assms(5) show ?thesis by simp
qed

lemma sharpen3: "sharpenData (concat (replicate 9 [100, 100, 100, 255])) 3 3 (1 / 2)
   = replicate 16 0 @ [100, 100, 100, 255] @ replicate 16 0"
  by (simp add: sharpenData_def sharpenPixel_def kernelSum_def offsets_def weights_def
        get_px_def blend_def wSum_def storeClamped_def Let_def eval_nat_numeral)

text \<open>
  C2 does not hold of \<open>applySharpen\<close>: the output array starts as zeros, only the
  interior pixels are written, and the whole array is put back. On a 3 by 3 image of
  opaque grey with intensity \<open>1/2\<close>, the eight border pixels come out as \<open>0, 0, 0, 0\<close>
  (colour and alpha lost) and only the centre pixel keeps its value.
\<close>

theorem applySharpen_clears_border:
  "applySharpen (sampleHost\<lparr>getImageData := \<lambda>c. concat (replicate 9 [100, 100, 100, 255])\<rparr>)
     \<lparr>c_width = 3, c_height = 3, c_alpha = True, c_ops = []\<rparr> 3 3 (1 / 2)
   = Inr \<lparr>c_width = 3, c_height = 3, c_alpha = True,
          c_ops = [PutImageData (replicate 16 0 @ [100, 100, 100, 255] @ replicate 16 0)]\<rparr>"
  by (simp add: applySharpen_def draw_def sharpen3)

subsection \<open>processBatch\<close>

lemma runJobs_append:
  "runJobs H g onP n nF (xs @ ys) st = andThen (runJobs H g onP n nF xs st) (runJobs H g onP n nF ys)"
  by (induction xs arbitrary: st) (auto simp: andThen_def split: promise.splits)

lemma presetsLoop_runJobs:
  "presetsLoop H g onP n nF file i presets st
   = runJobs H g onP n nF (map (\<lambda>preset. (i, file, preset)) presets) st"
  by (induction presets arbitrary: st) (auto split: promise.splits)

lemma filesLoop_runJobs:
  "filesLoop H g onP n nF presets i files st = runJobs H g onP n nF (jobs files presets i) st"
proof (induction files arbitrary: i st)
  case Nil
  show ?case by simp
next
  case (Cons f rest)
  show ?case
    by (simp add: runJobs_append presetsLoop_runJobs Cons.IH andThen_def
          split: prod.splits promise.splits)
qed

lemma length_jobs: "length (jobs files presets i) = length files * length presets"
  by (induction files arbitrary: i) simp_all

lemma jobs_presets:
  "(\<lambda>(i, f, p). p) ` set (jobs files presets i) = (if files = [] then {} else set presets)"
  by (induction files arbitrary: i) (auto simp: image_Un image_image)

lemma in_jobs:
  "(j, f, p) \<in> set (jobs files presets i)
   \<Longrightarrow> \<exists>k<length files. j = i + k \<and> f = files ! k \<and> p \<in> set presets"
proof (induction files arbitrary: i)
  case Nil
  then show ?case by simp
next
  case (Cons f0 rest)
  from Cons.prems consider "j = i \<and> f = f0 \<and> p \<in> set presets"
    | "(j, f, p) \<in> set (jobs rest presets (Suc i))"
    by auto
  then show ?case
  proof cases
    case 1
    then show ?thesis by (intro exI [of _ 0]) simp
  next
    case 2
    from Cons.IH [OF 2] obtain k where "k < length rest" "j = Suc i + k" "f = rest ! k"
      "p \<in> set presets" by blast
    then show ?thesis by (intro exI [of _ "Suc k"]) simp
  qed
qed

lemma uniqueLoop_fresh: "uniqueLoop b u c k \<notin> set u"
proof (induction b u c k rule: uniqueLoop.induct)
  case (1 b u c k)
  then show ?case by (subst uniqueLoop.simps) simp
qed

lemma makeUniqueName_fresh:
  "fst (makeUniqueName b u) \<notin> set u"
  "snd (makeUniqueName b u) = u @ [fst (makeUniqueName b u)]"
  by (simp_all add: makeUniqueName_def Let_def set_add_def uniqueLoop_fresh)

lemma map_of_put: "map_of (put k v kvs) k' = (if k' = k then Some v else map_of kvs k')"
  by (induction kvs) auto

lemma keys_put:
  "map fst (put k v kvs) = (if k \<in> set (map fst kvs) then map fst kvs else map fst kvs @ [k])"
  by (induction kvs) fastforce+

lemma set_put: "set (put k v kvs) \<subseteq> insert (k, v) (set kvs)"
  by (induction kvs) (auto split: if_splits)

lemma length_put:
  "length (put k v kvs) = (if k \<in> set (map fst kvs) then length kvs else Suc (length kvs))"
  using arg_cong [OF keys_put [of k v kvs], of length] by (simp split: if_splits)

lemma split_on_nonempty: "split_on sep s \<noteq> []"
  by (induction s) (auto split: list.splits)

lemma split_on_free: "p \<in> set (split_on sep s) \<Longrightarrow> sep \<notin> set p"
proof (induction s arbitrary: p)
  case Nil
  then show ?case by simp
next
  case (Cons c cs)
  show ?case
  proof (cases "c = sep")
    case True
    with Cons show ?thesis by auto
  next
    case False
    obtain q qs where q: "split_on sep cs = q # qs"
      using split_on_nonempty [of sep cs] by (cases "split_on sep cs") auto
    with Cons.prems False have "p = c # q \<or> p \<in> set qs" by simp
    with Cons.IH q False show ?thesis by auto
  qed
qed

lemma last_split_free: "sep \<notin> set (last (split_on sep s))"
  using split_on_free [of "last (split_on sep s)" sep s] split_on_nonempty [of sep s]
  by simp

lemma tail_after_sep:
  assumes "sep \<notin> set e"
  shows "takeWhile (\<lambda>c. c \<noteq> sep) (rev (u @ [sep] @ e)) = rev e"
proof -
  have "takeWhile (\<lambda>c. c \<noteq> sep) (rev e @ sep # rev u)
        = rev e @ takeWhile (\<lambda>c. c \<noteq> sep) (sep # rev u)"
    using assms by (intro takeWhile_append2) auto
  then show ?thesis by simp
qed

lemma sep_suffix_unique:
  assumes "sep \<notin> set e1" "sep \<notin> set e2" "u1 @ [sep] @ e1 = u2 @ [sep] @ e2"
  shows "u1 = u2"
proof -
  have "takeWhile (\<lambda>c. c \<noteq> sep) (rev (u1 @ [sep] @ e1))
        = takeWhile (\<lambda>c. c \<noteq> sep) (rev (u2 @ [sep] @ e2))"
    by (simp only: assms(3))
  then have "rev e1 = rev e2"
    by (simp only: tail_after_sep [OF assms(1)] tail_after_sep [OF assms(2)])
  then have "e1 = e2" by simp
  with assms(3) show ?thesis by simp
qed

lemma storeArtifact_fields:
  "b_completed (storeArtifact p onP n (content, outputName) st) = Suc (b_completed st)"
  "b_progress (storeArtifact p onP n (content, outputName) st) =
     (if onP then b_progress st @ [(Suc (b_completed st), n)] else b_progress st)"
  "z_folders (b_zip (storeArtifact p onP n (content, outputName) st)) =
     set_add (presetFolder p) (z_folders (b_zip st))"
  "z_files (b_zip (storeArtifact p onP n (content, outputName) st)) =
     put (presetFolder p, artifactBase p outputName st @ [dot] @ artifactExt outputName) content
       (z_files (b_zip st))"
  "b_folderUsedNames (storeArtifact p onP n (content, outputName) st) =
     put (presetFolder p) (usedOf st (presetFolder p) @ [artifactBase p outputName st])
       (b_folderUsedNames st)"
  by (simp_all add: storeArtifact_def Let_def usedOf_def artifactBase_def artifactExt_def
        zip_folder_def zip_file_def makeUniqueName_fresh case_prod_beta)

lemma usedOf_storeArtifact:
  "usedOf (storeArtifact p onP n (content, outputName) st) folder =
     (if folder = presetFolder p
      then usedOf st folder @ [artifactBase p outputName st]
      else usedOf st folder)"
  by (simp add: usedOf_def [of "storeArtifact p onP n (content, outputName) st"]
        storeArtifact_fields map_of_put) (simp add: usedOf_def)

lemma artifactBase_fresh: "artifactBase p outputName st \<notin> set (usedOf st (presetFolder p))"
  by (simp add: artifactBase_def makeUniqueName_fresh)

lemma artifactExt_free: "dot \<notin> set (artifactExt outputName)"
  by (simp add: artifactExt_def last_split_free)

lemma new_key_fresh:
  assumes "archiveInv st"
  shows "(presetFolder p, artifactBase p outputName st @ [dot] @ artifactExt outputName)
         \<notin> set (map fst (z_files (b_zip st)))"
proof
  assume "(presetFolder p, artifactBase p outputName st @ [dot] @ artifactExt outputName)
          \<in> set (map fst (z_files (b_zip st)))"
  with assms obtain u e where ue:
    "artifactBase p outputName st @ [dot] @ artifactExt outputName = u @ [dot] @ e"
    "dot \<notin> set e" "u \<in> set (usedOf st (presetFolder p))"
    unfolding archiveInv_def by blast
  from sep_suffix_unique [OF artifactExt_free ue(2) ue(1)] ue(3) artifactBase_fresh [of p outputName st]
  show False by simp
qed

lemma distinct_set_add: "distinct xs \<Longrightarrow> distinct (set_add x xs)"
  by (simp add: set_add_def)

lemma set_set_add: "set (set_add x xs) = insert x (set xs)"
  by (auto simp: set_add_def)

lemma storeArtifact_inv:
  assumes "archiveInv st"
  shows "archiveInv (storeArtifact p onP n (content, outputName) st)"
    and "length (z_files (b_zip (storeArtifact p onP n (content, outputName) st)))
         = Suc (length (z_files (b_zip st)))"
proof -
  let ?st' = "storeArtifact p onP n (content, outputName) st"
  let ?key = "(presetFolder p, artifactBase p outputName st @ [dot] @ artifactExt outputName)"
  have fresh: "?key \<notin> set (map fst (z_files (b_zip st)))"
    by (rule new_key_fresh [OF assms])
  have keys: "map fst (z_files (b_zip ?st')) = map fst (z_files (b_zip st)) @ [?key]"
    using fresh by (simp add: storeArtifact_fields keys_put)
  show "length (z_files (b_zip ?st')) = Suc (length (z_files (b_zip st)))"
    using fresh by (simp add: storeArtifact_fields length_put)
  have d1: "distinct (map fst (z_files (b_zip ?st')))"
    using assms fresh unfolding keys archiveInv_def by simp
  have d2: "distinct (z_folders (b_zip ?st'))"
    using assms by (simp add: storeArtifact_fields distinct_set_add archiveInv_def)
  have names: "\<exists>u e. fname = u @ [dot] @ e \<and> dot \<notin> set e \<and> u \<in> set (usedOf ?st' folder)"
    if "(folder, fname) \<in> set (map fst (z_files (b_zip ?st')))" for folder fname
  proof (cases "(folder, fname) = ?key")
    case True
    then show ?thesis
      using artifactExt_free [of outputName] by (auto simp: usedOf_storeArtifact)
  next
    case False
    with that keys have "(folder, fname) \<in> set (map fst (z_files (b_zip st)))" by auto
    with assms obtain u e where "fname = u @ [dot] @ e" "dot \<notin> set e"
      "u \<in> set (usedOf st folder)"
      unfolding archiveInv_def by blast
    then show ?thesis by (auto simp: usedOf_storeArtifact)
  qed
  show "archiveInv ?st'"
    unfolding archiveInv_def using d1 d2 names by blast
qed

lemma runJobs_resolved:
  assumes "\<forall>(i, f, p) \<in> set todo. \<exists>r. transformSingle H f p g i nF = Resolved r"
    and "archiveInv st"
  shows "\<exists>st'. runJobs H g onP n nF todo st = (st', Resolved ())
           \<and> archiveInv st'
           \<and> b_completed st' = b_completed st + length todo
           \<and> length (z_files (b_zip st')) = length (z_files (b_zip st)) + length todo
           \<and> b_progress st' = b_progress st @
                (if onP then map (\<lambda>k. (k, n)) [Suc (b_completed st)..<Suc (b_completed st + length todo)]
                 else [])
           \<and> set (z_folders (b_zip st'))
               = set (z_folders (b_zip st)) \<union> presetFolder ` (\<lambda>(i, f, p). p) ` set todo"
  using assms
proof (induction todo arbitrary: st)
  case Nil
  then show ?case by simp
next
  case (Cons job rest)
  obtain i f p where job: "job = (i, f, p)" by (cases job) auto
  from Cons.prems(1) job obtain content outputName
    where r: "transformSingle H f p g i nF = Resolved (content, outputName)"
    by fastforce
  define st1 where "st1 = storeArtifact p onP n (content, outputName) st"
  have inv1: "archiveInv st1"
    and len1: "length (z_files (b_zip st1)) = Suc (length (z_files (b_zip st)))"
    unfolding st1_def by (rule storeArtifact_inv [OF Cons.prems(2)])+
  have rest: "\<forall>(i, f, p) \<in> set rest. \<exists>r. transformSingle H f p g i nF = Resolved r"
    using Cons.prems(1) by simp
  from Cons.IH [OF rest inv1] obtain st' where st':
    "runJobs H g onP n nF rest st1 = (st', Resolved ())" "archiveInv st'"
    "b_completed st' = b_completed st1 + length rest"
    "length (z_files (b_zip st')) = length (z_files (b_zip st1)) + length rest"
    "b_progress st' = b_progress st1 @
       (if onP then map (\<lambda>k. (k, n)) [Suc (b_completed st1)..<Suc (b_completed st1 + length rest)]
        else [])"
    "set (z_folders (b_zip st')) = set (z_folders (b_zip st1)) \<union> presetFolder ` (\<lambda>(i, f, p). p) ` set rest"
    by blast
  have c1: "b_completed st1 = Suc (b_completed st)"
    and p1: "b_progress st1 = (if onP then b_progress st @ [(Suc (b_completed st), n)] else b_progress st)"
    and f1: "set (z_folders (b_zip st1)) = insert (presetFolder p) (set (z_folders (b_zip st)))"
    unfolding st1_def by (simp_all add: storeArtifact_fields set_set_add)
  have run: "runJobs H g onP n nF (job # rest) st = (st', Resolved ())"
    using r st'(1) by (simp add: job st1_def)
  have upt: "[Suc (b_completed st)..<Suc (b_completed st + length (job # rest))]
             = Suc (b_completed st) # [Suc (b_completed st1)..<Suc (b_completed st1 + length rest)]"
    by (simp add: c1 upt_conv_Cons del: upt_Suc)
  have prog: "b_progress st' = b_progress st @
       (if onP then map (\<lambda>k. (k, n)) [Suc (b_completed st)..<Suc (b_completed st + length (job # rest))]
        else [])"
    unfolding upt st'(5) p1 by simp
  have folders: "set (z_folders (b_zip st'))
       = set (z_folders (b_zip st)) \<union> presetFolder ` (\<lambda>(i, f, p). p) ` set (job # rest)"
    using st'(6) by (simp add: f1 job)
  show ?case
    using run st'(2) st'(3) st'(4) prog folders by (simp add: c1 len1)
qed

lemma archiveInv_initial:
  "archiveInv \<lparr>b_completed = 0, b_zip = \<lparr>z_folders = [], z_files = []\<rparr>,
               b_folderUsedNames = [], b_progress = []\<rparr>"
  by (simp add: archiveInv_def)

lemma processBatch_runJobs:
  "processBatch H files presets g onP =
     (let r = runJobs H g onP (length files * length presets) (length files)
                (jobs files presets 0)
                \<lparr>b_completed = 0, b_zip = \<lparr>z_folders = [], z_files = []\<rparr>,
                 b_folderUsedNames = [], b_progress = []\<rparr>
      in (fst r, await (snd r) (\<lambda>u. case generateAsync H (b_zip (fst r)) of
                                       Some content \<Rightarrow> Resolved content
                                     | None \<Rightarrow> Rejected ArchiveError)))"
  by (simp add: processBatch_def Let_def filesLoop_runJobs case_prod_beta)

lemma all_jobs_resolved:
  assumes "\<forall>i<length files. \<forall>preset\<in>set presets.
             \<exists>r. transformSingle H (files ! i) preset g i nF = Resolved r"
  shows "\<forall>(i, f, p) \<in> set (jobs files presets 0). \<exists>r. transformSingle H f p g i nF = Resolved r"
proof (clarify)
  fix i f p assume "(i, f, p) \<in> set (jobs files presets 0)"
  from in_jobs [OF this] obtain k where "k < length files" "i = k" "f = files ! k" "p \<in> set presets"
    by auto
  with assms show "\<exists>r. transformSingle H f p g i nF = Resolved r" by blast
qed

text \<open>
  C7: when every job of a batch of \<open>F\<close> files and \<open>P\<close> presets resolves and a progress
  callback is given, the callback is called exactly \<open>F * P\<close> times, the \<open>k\<close>-th time
  with \<open>(k, F * P)\<close>; the archive then holds exactly \<open>F * P\<close> files, no two under the
  same folder and name, and its folders are the sanitized names of the presets, each
  listed once (so a batch of 2 files and 2 presets with different sanitized names gives
  4 files in 2 folders).
\<close>

theorem processBatch_progress_and_artifacts:
  assumes "\<forall>i<length files. \<forall>preset\<in>set presets.
             \<exists>r. transformSingle H (files ! i) preset g i (length files) = Resolved r"
  shows "b_progress (fst (processBatch H files presets g True))
           = map (\<lambda>k. (k, length files * length presets))
               [1..<Suc (length files * length presets)]
       \<and> b_completed (fst (processBatch H files presets g True))
           = length files * length presets
       \<and> length (z_files (b_zip (fst (processBatch H files presets g True))))
           = length files * length presets
       \<and> distinct (map fst (z_files (b_zip (fst (processBatch H files presets g True)))))
       \<and> distinct (z_folders (b_zip (fst (processBatch H files presets g True))))
       \<and> set (z_folders (b_zip (fst (processBatch H files presets g True))))
           = (if files = [] then {} else presetFolder ` set presets)"
proof -
  let ?st0 = "\<lparr>b_completed = 0, b_zip = \<lparr>z_folders = [], z_files = []\<rparr>,
               b_folderUsedNames = [], b_progress = []\<rparr>"
  from runJobs_resolved [OF all_jobs_resolved [OF assms] archiveInv_initial,
      of True "length files * length presets"]
  obtain st' where st':
    "runJobs H g True (length files * length presets) (length files) (jobs files presets 0) ?st0
       = (st', Resolved ())"
    "archiveInv st'"
    "b_completed st' = length files * length presets"
    "length (z_files (b_zip st')) = length files * length presets"
    "b_progress st' = map (\<lambda>k. (k, length files * length presets))
                        [1..<Suc (length files * length presets)]"
    "set (z_folders (b_zip st')) = presetFolder ` (\<lambda>(i, f, p). p) ` set (jobs files presets 0)"
    by (auto simp: length_jobs)
  have "fst (processBatch H files presets g True) = st'"
    by (simp add: processBatch_runJobs st'(1))
  then show ?thesis
    using st' by (simp add: archiveInv_def jobs_presets)
qed

lemma transformSingle_decode_failure:
  "file_readable H f \<Longrightarrow> createImageBitmap H (f_bytes f) True = None
   \<Longrightarrow> createImageBitmap H (f_bytes f) False = None
   \<Longrightarrow> transformSingle H f p g i n = Rejected DecodeError"
  by (simp add: transformSingle_def loadImageWithMetadata_def await_def Let_def)

text \<open>
  C1, as the code has it: nothing in \<open>processBatch\<close> catches the failure of a job. When
  the first job that does not resolve is rejected with an error (the decode error, when
  its file is readable and cannot be decoded), the batch is rejected with that error:
  the jobs before it have been stored and reported, no later job is run, and no archive
  is generated.
\<close>

theorem processBatch_rejects_at_first_failure:
  assumes "jobs files presets 0 = before @ (i, f, p) # after"
    and "\<forall>(j, f', p') \<in> set before. \<exists>r. transformSingle H f' p' g j (length files) = Resolved r"
    and "transformSingle H f p g i (length files) = Rejected e"
  shows "(file_readable H f \<and> createImageBitmap H (f_bytes f) True = None
          \<and> createImageBitmap H (f_bytes f) False = None \<longrightarrow> e = DecodeError)
       \<and> snd (processBatch H files presets g onP) = Rejected e
       \<and> b_completed (fst (processBatch H files presets g onP)) = length before
       \<and> length (z_files (b_zip (fst (processBatch H files presets g onP)))) = length before
       \<and> length (b_progress (fst (processBatch H files presets g onP)))
           = (if onP then length before else 0)"
proof -
  let ?st0 = "\<lparr>b_completed = 0, b_zip = \<lparr>z_folders = [], z_files = []\<rparr>,
               b_folderUsedNames = [], b_progress = []\<rparr>"
  let ?n = "length files * length presets"
  from runJobs_resolved [OF assms(2) archiveInv_initial, of onP ?n]
  obtain st' where run: "runJobs H g onP ?n (length files) before ?st0 = (st', Resolved ())"
    and c: "b_completed st' = b_completed ?st0 + length before"
    and l: "length (z_files (b_zip st')) = length (z_files (b_zip ?st0)) + length before"
    and pr: "b_progress st' = b_progress ?st0 @
       (if onP then map (\<lambda>k. (k, ?n)) [Suc (b_completed ?st0)..<Suc (b_completed ?st0 + length before)]
        else [])"
    by blast
  have st': "b_completed st' = length before" "length (z_files (b_zip st')) = length before"
    "length (b_progress st') = (if onP then length before else 0)"
    using c l pr by (simp_all del: upt_Suc)
  have "runJobs H g onP ?n (length files) (jobs files presets 0) ?st0 = (st', Rejected e)"
    unfolding assms(1) runJobs_append run by (simp add: andThen_def assms(3))
  then have "processBatch H files presets g onP = (st', Rejected e)"
    by (simp add: processBatch_runJobs await_def)
  with st' transformSingle_decode_failure [of H f p g i "length files"] assms(3)
  show ?thesis by auto
qed

lemma load_sample:
  "loadImageWithMetadata sampleHost f =
     (if f_bytes f = [] then Rejected DecodeError else Resolved (sampleBitmap, None))"
  by (simp add: loadImageWithMetadata_def sampleHost_simps Let_def sampleBitmap_def)

lemma orient_sample: "correctOrientationToCanvas sampleHost sampleBitmap None = Inr oriented"
  by (simp add: correctOrientationToCanvas_def getCanvasContext_def sampleHost_simps draw_def
        oriented_def sampleBitmap_def)

lemma composite_sample: "\<exists>canvas. composite sampleHost orientedCanvas p g = Inr canvas"
  by (simp add: composite_def getCanvasContext_def sampleHost_simps Let_def case_prod_beta)

lemma render_sample:
  "renderToBlob sampleHost canvas fmt q = Resolved \<lparr>blob_bytes = [], blob_type = mimeType fmt\<rparr>"
  by (simp add: renderToBlob_def sampleHost_simps)

lemma inject_sample:
  "injectJpegDpiIfNeeded sampleHost b dpi = Resolved b"
  "injectJpegComment sampleHost b productName comment = Resolved b"
  by (simp_all add: injectJpegDpiIfNeeded_def injectJpegComment_def sampleHost_simps
        insertExif_dump_fails)

lemma transformSingle_undecodable:
  "f_bytes f = [] \<Longrightarrow> transformSingle sampleHost f p g i n = Rejected DecodeError"
  by (simp add: transformSingle_def load_sample await_def)

lemma transformSingle_sample:
  assumes "f_bytes f \<noteq> []" "p_sharpen p \<le> 0"
  shows "\<exists>canvas. composite sampleHost oriented p g = Inr canvas
         \<and> transformSingle sampleHost f p g i n =
             Resolved (\<lparr>blob_bytes = [], blob_type = mimeType (p_format p)\<rparr>,
               inferOutputName (f_name f) i
                 \<lparr>n_name = p_name p, n_width = c_width canvas, n_height = c_height canvas,
                  n_format = p_format p, n_namingPattern = g_namingPattern g,
                  n_productName = g_productName g\<rparr> @ [dot] @ extension (p_format p))"
proof -
  from composite_sample obtain canvas where c: "composite sampleHost oriented p g = Inr canvas"
    by blast
  show ?thesis
    using assms c
    by (simp add: transformSingle_def load_sample await_def try_sync_def orient_sample
          render_sample inject_sample Let_def)
qed

lemma js_Cons: "js (c # cs) = of_char c # js cs" and js_Nil: "js [] = []"
  by (simp_all add: js_def)

lemma replaceFrom_other:
  "c \<noteq> d \<Longrightarrow> replaceFrom (c # pat) rep leftPart [d] = [d]"
  by (subst replaceFrom.simps, simp) (subst replaceFrom.simps, simp)

lemma inferOutputName_fixed:
  "inferOutputName inputName i
     \<lparr>n_name = nm, n_width = w, n_height = h, n_format = fmt, n_namingPattern = js ''x'',
      n_productName = pn\<rparr> = js ''x''"
  by (simp add: inferOutputName_def Let_def orElse_def replaceAll_def js_Cons js_Nil
        replaceFrom_other)

lemma transformSingle_f2_pA:
  "transformSingle sampleHost f2 pA gO i n
   = Resolved (\<lparr>blob_bytes = [], blob_type = js ''image/png''\<rparr>, js ''x.png'')"
proof -
  from transformSingle_sample [of f2 pA gO i n]
  have "transformSingle sampleHost f2 pA gO i n =
          Resolved (\<lparr>blob_bytes = [], blob_type = mimeType Png\<rparr>,
                    js ''x'' @ [dot] @ extension Png)"
    by (auto simp: f2_def pA_def gO_def inferOutputName_fixed)
  then show ?thesis
    by (simp add: mimeType_def extension_def formatName_def js_def dot_def)
qed

lemma sample_folders: "presetFolder pA = js ''a''" "presetFolder pB = js ''b''"
  by (simp_all add: presetFolder_def pA_def pB_def orElse_def sanitizeFilename_def js_def
        forbidden_def is_space_def trim_def strip_both_def dot_def reserved_def upper_def Let_def)

lemma sample_files: "f_bytes f1 \<noteq> []" "f_bytes f2 \<noteq> []" "f_bytes fbad = []"
  by (simp_all add: f1_def f2_def fbad_def)

lemma sample_sharpen: "p_sharpen pA \<le> 0" "p_sharpen pB \<le> 0"
  by (simp_all add: pA_def pB_def)

text \<open>
  A batch of a file that cannot be decoded followed by a good one, with one preset: the
  batch is rejected with the decode error and the archive holds nothing, although the
  job of the second file resolves when it is run.
\<close>

theorem processBatch_decode_failure_counterexample:
  "transformSingle sampleHost fbad pA gO 0 2 = Rejected DecodeError
   \<and> transformSingle sampleHost f2 pA gO 1 2
       = Resolved (\<lparr>blob_bytes = [], blob_type = js ''image/png''\<rparr>, js ''x.png'')
   \<and> snd (processBatch sampleHost [fbad, f2] [pA] gO True) = Rejected DecodeError
   \<and> z_files (b_zip (fst (processBatch sampleHost [fbad, f2] [pA] gO True))) = []
   \<and> b_progress (fst (processBatch sampleHost [fbad, f2] [pA] gO True)) = []"
  by (simp add: transformSingle_f2_pA transformSingle_undecodable sample_files processBatch_def
        await_def)

theorem processBatch_rejects_at_first_failure_witness:
  "jobs [f1, fbad, f2] [pA] 0 = [(0, f1, pA)] @ (1, fbad, pA) # [(2, f2, pA)]
   \<and> file_readable sampleHost fbad
   \<and> createImageBitmap sampleHost (f_bytes fbad) True = None
   \<and> createImageBitmap sampleHost (f_bytes fbad) False = None
   \<and> (\<exists>r. transformSingle sampleHost f1 pA gO 0 3 = Resolved r)
   \<and> transformSingle sampleHost fbad pA gO 1 3 = Rejected DecodeError
   \<and> snd (processBatch sampleHost [f1, fbad, f2] [pA] gO True) = Rejected DecodeError
   \<and> b_completed (fst (processBatch sampleHost [f1, fbad, f2] [pA] gO True)) = 1
   \<and> length (z_files (b_zip (fst (processBatch sampleHost [f1, fbad, f2] [pA] gO True)))) = 1
   \<and> length (b_progress (fst (processBatch sampleHost [f1, fbad, f2] [pA] gO True))) = 1"
proof -
  have j: "jobs [f1, fbad, f2] [pA] 0 = [(0, f1, pA)] @ (1, fbad, pA) # [(2, f2, pA)]"
    by simp
  have ok: "\<exists>r. transformSingle sampleHost f1 pA gO i n = Resolved r" for i n
    using transformSingle_sample [OF sample_files(1) sample_sharpen(1), of gO i n] by blast
  then have before: "\<forall>(j, f', p') \<in> set [(0, f1, pA)].
      \<exists>r. transformSingle sampleHost f' p' gO j (length [f1, fbad, f2]) = Resolved r"
    by simp
  have bad: "transformSingle sampleHost fbad pA gO 1 (length [f1, fbad, f2]) = Rejected DecodeError"
    by (simp add: transformSingle_undecodable sample_files)
  from processBatch_rejects_at_first_failure [OF j before bad, of True] j ok [of 0 3]
  show ?thesis by (simp add: transformSingle_undecodable sample_files sampleHost_simps)
qed

theorem processBatch_progress_and_artifacts_witness:
  "(\<exists>r. transformSingle sampleHost f1 pA gO 0 2 = Resolved r)
   \<and> (\<exists>r. transformSingle sampleHost f1 pB gO 0 2 = Resolved r)
   \<and> (\<exists>r. transformSingle sampleHost f2 pA gO 1 2 = Resolved r)
   \<and> (\<exists>r. transformSingle sampleHost f2 pB gO 1 2 = Resolved r)
   \<and> presetFolder pA = js ''a'' \<and> presetFolder pB = js ''b''
   \<and> b_progress (fst (processBatch sampleHost [f1, f2] [pA, pB] gO True))
       = [(1, 4), (2, 4), (3, 4), (4, 4)]
   \<and> length (z_files (b_zip (fst (processBatch sampleHost [f1, f2] [pA, pB] gO True)))) = 4
   \<and> set (z_folders (b_zip (fst (processBatch sampleHost [f1, f2] [pA, pB] gO True))))
       = {js ''a'', js ''b''}
   \<and> length (z_folders (b_zip (fst (processBatch sampleHost [f1, f2] [pA, pB] gO True)))) = 2"
proof -
  have r: "\<exists>r. transformSingle sampleHost f1 pA gO i n = Resolved r"
    "\<exists>r. transformSingle sampleHost f1 pB gO i n = Resolved r"
    "\<exists>r. transformSingle sampleHost f2 pA gO i n = Resolved r"
    "\<exists>r. transformSingle sampleHost f2 pB gO i n = Resolved r" for i n
    using transformSingle_sample [OF sample_files(1) sample_sharpen(1), of gO i n]
      transformSingle_sample [OF sample_files(1) sample_sharpen(2), of gO i n]
      transformSingle_sample [OF sample_files(2) sample_sharpen(1), of gO i n]
      transformSingle_sample [OF sample_files(2) sample_sharpen(2), of gO i n]
    by blast+
  have hyp: "\<forall>i<length [f1, f2]. \<forall>preset\<in>set [pA, pB].
      \<exists>r. transformSingle sampleHost ([f1, f2] ! i) preset gO i (length [f1, f2]) = Resolved r"
    using r by (auto simp: less_Suc_eq)
  note concl = processBatch_progress_and_artifacts [OF hyp]
  let ?st = "fst (processBatch sampleHost [f1, f2] [pA, pB] gO True)"
  have prog: "b_progress ?st = [(1, 4), (2, 4), (3, 4), (4, 4)]"
    using concl by (simp add: upt_conv_Cons del: upt_Suc)
  have files: "length (z_files (b_zip ?st)) = 4"
    using concl by simp
  have folders: "set (z_folders (b_zip ?st)) = {js ''a'', js ''b''}"
    using concl by (simp add: sample_folders)
  have "distinct (z_folders (b_zip ?st))"
    using concl by simp
  then have "length (z_folders (b_zip ?st)) = card {js ''a'', js ''b''}"
    using folders distinct_card by metis
  also have "\<dots> = 2" by (simp add: js_def)
  finally show ?thesis
    using r [of 0 2] r [of 1 2] prog files folders by (simp add: sample_folders)
qed

end
